theory Spec2Isabelle
  imports Complex_Main "HOL-Library.Word"
begin

section \<open>The outside world of the ingestion scripts\<close>

text \<open>
  The ingestion scripts of ParkSphere talk to three provider APIs with \<^verbatim>\<open>requests.get\<close>,
  wait with \<^verbatim>\<open>time.sleep\<close> and write a SQLite file. The model makes each of these effects
  explicit. A call of \<^verbatim>\<open>requests.get\<close> either raises (\<open>None\<close>) or returns a response;
  \<open>json\<close> is the view of \<^verbatim>\<open>response.json()\<close> that the caller reads, \<open>None\<close> when decoding
  it or reading a required key of it raises. Python floats that are only passed on
  (coordinates) are values of type \<open>real\<close>.
\<close>

type_synonym bytes = "8 word list"

record 'j response =
  status_code :: nat
  content_type :: "string option"
  content :: bytes
  json :: "'j option"

text \<open>\<^verbatim>\<open>response.raise_for_status()\<close> raises for the 4xx and 5xx codes.\<close>

definition raise_for_status :: "'j response \<Rightarrow> bool" where
  "raise_for_status r = (400 \<le> status_code r \<and> status_code r < 600)"

text \<open>\<^verbatim>\<open>response.headers.get("content-type", "").startswith("image/")\<close>\<close>

definition startswith :: "string \<Rightarrow> string \<Rightarrow> bool" where
  "startswith s p = (take (length p) s = p)"

definition is_image :: "'j response \<Rightarrow> bool" where
  "is_image r = startswith (case content_type r of None \<Rightarrow> [] | Some t \<Rightarrow> t) ''image/''"

text \<open>The JSON that the scripts read from the providers.\<close>

record raw_photo =
  urls_raw :: "string option"
  urls_regular :: string
  urls_thumb :: string
  raw_width :: int
  raw_height :: int
  user_name :: string
  raw_blur_hash :: string

record raw_nps_image =
  img_url :: string
  img_title :: string
  img_caption :: string
  img_credit :: string

record raw_nps_park =
  fullName :: string
  description :: string
  weatherInfo :: string
  directionsInfo :: string
  activities_names :: "string list"
  topics_names :: "string list"
  nps_images :: "raw_nps_image list"

text \<open>
  The environment of one run: what each request returns, whether a file can be written,
  and the library functions whose results the scripts only pass on. \<open>pil_process\<close> is the
  PIL part of \<^verbatim>\<open>download_and_process_image\<close> (decode, three thumbnails, the tiny
  preview): the decoded width and height and the base64 text of the preview, or \<open>None\<close>
  when PIL raises. \<open>db_error\<close> says at which statement, if any, SQLite raises while
  the data of a park are saved.
\<close>

record env =
  nasa_assets :: "real \<Rightarrow> real \<Rightarrow> int response option"
  nasa_imagery :: "real \<Rightarrow> real \<Rightarrow> unit response option"
  nps_parks :: "string \<Rightarrow> raw_nps_park list response option"
  unsplash_search :: "string \<Rightarrow> int \<Rightarrow> raw_photo list response option"
  http_get :: "string \<Rightarrow> unit response option"
  can_write :: "string \<Rightarrow> bool"
  str_float :: "real \<Rightarrow> string"
  str_int :: "int \<Rightarrow> string"
  md5_hexdigest :: "string \<Rightarrow> string"
  pil_process :: "bytes \<Rightarrow> (int \<times> int \<times> string) option"
  now :: nat
  db_error :: "int \<Rightarrow> nat option"

text \<open>
  The effects a run leaves behind, in program order: the API requests by provider, the
  image downloads, and the sleeps with their length in seconds.
\<close>

datatype provider = Unsplash | NASA | NPS

datatype event = ApiCall provider | Download string | Sleep nat


section \<open>fetch\_world\_parks\_data.py: the provider calls\<close>

text \<open>
  The state of a \<^verbatim>\<open>WorldParksFetcher\<close> during a run: the counters of
  \<^verbatim>\<open>self.api_calls\<close> and the effects so far (newest last).
\<close>

record fetcher =
  api_calls_unsplash :: nat
  api_calls_nasa :: nat
  api_calls_nps :: nat
  events :: "event list"

definition emit :: "event \<Rightarrow> fetcher \<Rightarrow> fetcher" where
  "emit ev s = s\<lparr>events := events s @ [ev]\<rparr>"

definition fetcher0 :: fetcher where
  "fetcher0 = \<lparr>api_calls_unsplash = 0, api_calls_nasa = 0, api_calls_nps = 0, events = []\<rparr>"

text \<open>
  \<^verbatim>\<open>save_nasa_image\<close> writes the image under the name
  \<^verbatim>\<open>nasa_sat_{lat}_{lon}.jpg\<close> and returns its URL; \<open>None\<close> when \<^verbatim>\<open>open\<close> or
  \<^verbatim>\<open>write\<close> raises.
\<close>

definition save_nasa_image :: "env \<Rightarrow> bytes \<Rightarrow> real \<Rightarrow> real \<Rightarrow> string option" where
  "save_nasa_image e image_data lat lon =
     (let filename = ''nasa_sat_'' @ str_float e lat @ ''_'' @ str_float e lon @ ''.jpg''
      in if can_write e filename then Some (''/assets/'' @ filename) else None)"

text \<open>
  \<^verbatim>\<open>validate_location_with_nasa\<close>. The whole body is inside \<^verbatim>\<open>try\<close>; the handler
  returns \<^verbatim>\<open>(False, None)\<close>. The first request asks for the assets at the
  coordinates; only when it answers 200 with a positive count is the image requested.
  Every path that does not raise and does not return an image falls through to
  \<^verbatim>\<open>self.api_calls['nasa'] += 1; return True, None\<close>.
\<close>

definition validate_location_with_nasa ::
  "env \<Rightarrow> fetcher \<Rightarrow> real \<Rightarrow> real \<Rightarrow> (bool \<times> string option) \<times> fetcher" where
  "validate_location_with_nasa e s lat lon =
     (let s1 = emit (ApiCall NASA) s;
          no_image = (\<lambda>t. ((True, None), t\<lparr>api_calls_nasa := api_calls_nasa t + 1\<rparr>))
      in case nasa_assets e lat lon of
           None \<Rightarrow> ((False, None), s1)
         | Some response \<Rightarrow>
             if status_code response = 200 then
               (case json response of
                  None \<Rightarrow> ((False, None), s1)
                | Some count \<Rightarrow>
                    if count > 0 then
                      (let s2 = emit (ApiCall NASA) s1
                       in case nasa_imagery e lat lon of
                            None \<Rightarrow> ((False, None), s2)
                          | Some img_response \<Rightarrow>
                              if status_code img_response = 200 \<and> is_image img_response then
                                (let s3 = s2\<lparr>api_calls_nasa := api_calls_nasa s2 + 2\<rparr>
                                 in case save_nasa_image e (content img_response) lat lon of
                                      None \<Rightarrow> ((False, None), s3)
                                    | Some url \<Rightarrow> ((True, Some url), s3))
                              else no_image s2)
                    else no_image s1)
             else no_image s1)"

text \<open>
  When does the body of \<^verbatim>\<open>validate_location_with_nasa\<close> raise? When the first request
  raises; when it answers 200 and its JSON cannot be read; when the count is positive
  and the image request raises; or when the image arrives and cannot be saved.
\<close>

definition nasa_raises :: "env \<Rightarrow> real \<Rightarrow> real \<Rightarrow> bool" where
  "nasa_raises e lat lon =
     (case nasa_assets e lat lon of
        None \<Rightarrow> True
      | Some response \<Rightarrow>
          status_code response = 200 \<and>
          (case json response of
             None \<Rightarrow> True
           | Some count \<Rightarrow>
               count > 0 \<and>
               (case nasa_imagery e lat lon of
                  None \<Rightarrow> True
                | Some img_response \<Rightarrow>
                    status_code img_response = 200 \<and> is_image img_response \<and>
                    save_nasa_image e (content img_response) lat lon = None)))"


text \<open>A park as \<^verbatim>\<open>load_parks\<close> reads it from the CSV file (\<open>pid\<close> is the key \<^verbatim>\<open>'id'\<close>;
  \<open>code\<close> is \<^verbatim>\<open>'code'\<close>, in fetch\_assets\_mvp.py \<^verbatim>\<open>'nps_code'\<close>).\<close>

record park =
  pid :: int
  name :: string
  country :: string
  code :: string
  latitude :: real
  longitude :: real
  biome :: string
  established :: int
  area_acres :: int
  summary :: string

text \<open>The dictionaries that the fetch functions build from the JSON.\<close>

record photo =
  photo_url :: string
  thumb_url :: string
  photo_width :: int
  photo_height :: int
  photo_attribution :: string
  photo_blur_hash :: string

record nps_image =
  nps_url :: string
  nps_title :: string
  nps_caption :: string
  nps_attribution :: string

text \<open>Python's \<^verbatim>\<open>xs[:n]\<close>: a negative \<open>n\<close> counts from the end.\<close>

definition slice_to :: "int \<Rightarrow> 'a list \<Rightarrow> 'a list" where
  "slice_to n xs = (if n < 0 then take (nat (int (length xs) + n)) xs else take (nat n) xs)"

definition nps_image_of :: "raw_nps_image \<Rightarrow> nps_image" where
  "nps_image_of img =
     \<lparr>nps_url = img_url img, nps_title = img_title img, nps_caption = img_caption img,
      nps_attribution = ''NPS Photo'' @ (if img_credit img \<noteq> [] then '': '' @ img_credit img else [])\<rparr>"

definition fetch_nps_images :: "env \<Rightarrow> fetcher \<Rightarrow> string \<Rightarrow> nps_image list \<times> fetcher" where
  "fetch_nps_images e s park_code =
     (let s1 = emit (ApiCall NPS) s
      in case nps_parks e park_code of
           None \<Rightarrow> ([], s1)
         | Some response \<Rightarrow>
             if raise_for_status response then ([], s1)
             else (case json response of
                     None \<Rightarrow> ([], s1)
                   | Some data \<Rightarrow>
                       (case data of
                          [] \<Rightarrow> []
                        | park_data # _ \<Rightarrow> map nps_image_of (slice_to 5 (nps_images park_data)),
                        s1\<lparr>api_calls_nps := api_calls_nps s1 + 1\<rparr>)))"

definition world_photo_of :: "raw_photo \<Rightarrow> photo" where
  "world_photo_of p =
     \<lparr>photo_url = (case urls_raw p of None \<Rightarrow> urls_regular p | Some u \<Rightarrow> u)
                    @ ''?w=1920&h=1080&fit=crop&q=80'',
      thumb_url = urls_thumb p, photo_width = raw_width p, photo_height = raw_height p,
      photo_attribution = ''Photo by '' @ user_name p @ '' on Unsplash'',
      photo_blur_hash = raw_blur_hash p\<rparr>"

definition fetch_unsplash_photos ::
  "env \<Rightarrow> fetcher \<Rightarrow> string \<Rightarrow> string \<Rightarrow> int \<Rightarrow> photo list \<times> fetcher" where
  "fetch_unsplash_photos e s park_name cntry count =
     (let query = (if cntry \<noteq> ''United States'' then park_name @ '' '' @ cntry
                   else park_name @ '' National Park'');
          s1 = emit (ApiCall Unsplash) s
      in case unsplash_search e query count of
           None \<Rightarrow> ([], s1)
         | Some response \<Rightarrow>
             if raise_for_status response then ([], s1)
             else (case json response of
                     None \<Rightarrow> ([], s1)
                   | Some results \<Rightarrow>
                       (map world_photo_of (slice_to count results),
                        s1\<lparr>api_calls_unsplash := api_calls_unsplash s1 + 1\<rparr>)))"

text \<open>
  \<^verbatim>\<open>generate_blur_hash\<close> downloads the image and encodes a tiny copy; a bare
  \<^verbatim>\<open>except\<close> returns a fixed default.
\<close>

definition generate_blur_hash :: "env \<Rightarrow> string \<Rightarrow> string" where
  "generate_blur_hash e image_url =
     (case http_get e image_url of
        None \<Rightarrow> ''data:image/jpeg;base64,/9j/4AAQSkZJRgABAQAAAQ==''
      | Some response \<Rightarrow>
          (case pil_process e (content response) of
             None \<Rightarrow> ''data:image/jpeg;base64,/9j/4AAQSkZJRgABAQAAAQ==''
           | Some (w, h, tiny) \<Rightarrow> ''data:image/jpeg;base64,'' @ tiny))"


section \<open>The catalog: a SQLite file with the tables parks and images\<close>

text \<open>
  One row type serves both scripts; a column that a script's schema or statement does
  not have is \<open>None\<close>. \<open>row_id\<close> is the primary key of \<^verbatim>\<open>parks\<close>, \<open>row_code\<close> its
  \<^verbatim>\<open>UNIQUE\<close> column. \<open>image_id\<close> is the \<^verbatim>\<open>AUTOINCREMENT\<close> key of \<^verbatim>\<open>images\<close>, which has
  no other key and no \<^verbatim>\<open>UNIQUE\<close> column. SQLite does not enforce the foreign key of
  \<^verbatim>\<open>images\<close> unless a pragma asks for it, and the scripts set none.
\<close>

record park_row =
  row_id :: int
  row_name :: string
  row_country :: "string option"
  row_code :: string
  coordinates_lat :: real
  coordinates_lon :: real
  row_biome :: string
  row_established :: int
  row_area_acres :: int
  row_summary :: string
  row_activities :: "string list"
  row_climate :: string
  nasa_validated :: "bool option"
  updated_at :: nat

record image_values =
  park_id :: int
  image_type :: string
  url :: string
  local_path :: "string option"
  blur_hash :: "string option"
  width :: "int option"
  height :: "int option"
  attribution :: string
  source :: "string option"
  created_at :: nat

record image_row = image_values +
  image_id :: nat

record catalog =
  parks :: "park_row list"
  images :: "image_row list"
  images_seq :: nat

definition empty_catalog :: catalog where
  "empty_catalog = \<lparr>parks = [], images = [], images_seq = 0\<rparr>"

datatype stmt = InsertOrReplacePark park_row | InsertImage image_values

text \<open>
  \<^verbatim>\<open>INSERT OR REPLACE INTO parks\<close> deletes the rows that clash with the new one on the
  primary key or on the unique code, then inserts. \<^verbatim>\<open>INSERT INTO images\<close> appends a row
  with the next key: nothing can clash.
\<close>

fun exec_stmt :: "stmt \<Rightarrow> catalog \<Rightarrow> catalog" where
  "exec_stmt (InsertOrReplacePark r) c =
     c\<lparr>parks := filter (\<lambda>q. row_id q \<noteq> row_id r \<and> row_code q \<noteq> row_code r) (parks c) @ [r]\<rparr>"
| "exec_stmt (InsertImage v) c =
     c\<lparr>images := images c @ [image_values.extend v (image_row.fields (Suc (images_seq c)))],
       images_seq := Suc (images_seq c)\<rparr>"

text \<open>
  A connection of Python's \<^verbatim>\<open>sqlite3\<close>: \<open>disk\<close> is what the file holds, \<open>txn\<close> the
  state inside the open transaction. The module opens a transaction before the first
  \<^verbatim>\<open>INSERT\<close>; \<^verbatim>\<open>commit\<close> writes it to the file; a connection that goes away without
  \<^verbatim>\<open>commit\<close> (an exception, the end of the process) leaves the file as it was.
\<close>

record connection =
  disk :: catalog
  txn :: "catalog option"

definition connect :: "catalog \<Rightarrow> connection" where
  "connect c = \<lparr>disk = c, txn = None\<rparr>"

definition execute :: "stmt \<Rightarrow> connection \<Rightarrow> connection" where
  "execute st conn =
     conn\<lparr>txn := Some (exec_stmt st (case txn conn of None \<Rightarrow> disk conn | Some w \<Rightarrow> w))\<rparr>"

definition commit :: "connection \<Rightarrow> connection" where
  "commit conn = (case txn conn of None \<Rightarrow> conn | Some w \<Rightarrow> conn\<lparr>disk := w, txn := None\<rparr>)"


section \<open>Saving the data of one park\<close>

text \<open>
  \<^verbatim>\<open>save_park_data\<close> is a straight line of statements on one connection, with image
  downloads in between, and one \<^verbatim>\<open>conn.commit()\<close> at the end. \<open>run_steps\<close> runs the
  line; \<open>fault\<close> is the number of the statement at which SQLite raises, if any. The
  function has no handler, so the exception leaves it before \<^verbatim>\<open>commit\<close>.
\<close>

datatype step = Exec stmt | Effect event

datatype error = PersistenceError

fun run_steps ::
  "nat option \<Rightarrow> nat \<Rightarrow> step list \<Rightarrow> connection \<Rightarrow> event list \<Rightarrow> bool \<times> connection \<times> event list" where
  "run_steps fault n [] conn evs = (False, conn, evs)"
| "run_steps fault n (Effect ev # rest) conn evs = run_steps fault n rest conn (evs @ [ev])"
| "run_steps fault n (Exec st # rest) conn evs =
     (if fault = Some n then (True, conn, evs)
      else run_steps fault (Suc n) rest (execute st conn) evs)"

definition run_transaction ::
  "env \<Rightarrow> int \<Rightarrow> step list \<Rightarrow> fetcher \<times> catalog \<Rightarrow> error option \<times> fetcher \<times> catalog" where
  "run_transaction e park_key steps sd =
     (case run_steps (db_error e park_key) 0 steps (connect (snd sd)) (events (fst sd)) of
        (raised, conn, evs) \<Rightarrow>
          if raised then (Some PersistenceError, (fst sd)\<lparr>events := evs\<rparr>, disk conn)
          else (None, (fst sd)\<lparr>events := evs\<rparr>, disk (commit conn)))"

subsection \<open>fetch\_world\_parks\_data.py\<close>

definition world_park_row :: "env \<Rightarrow> park \<Rightarrow> bool \<Rightarrow> park_row" where
  "world_park_row e p validated =
     \<lparr>row_id = pid p, row_name = name p, row_country = Some (country p), row_code = code p,
      coordinates_lat = latitude p, coordinates_lon = longitude p, row_biome = biome p,
      row_established = established p, row_area_acres = area_acres p, row_summary = summary p,
      row_activities = [''Hiking'', ''Wildlife Viewing'', ''Photography'', ''Nature Walks'',
                        ''Scenic Drives''],
      row_climate = ''Varies by season'', nasa_validated = Some validated, updated_at = now e\<rparr>"

definition nps_image_values :: "env \<Rightarrow> int \<Rightarrow> nps_image \<Rightarrow> image_values" where
  "nps_image_values e k img =
     \<lparr>park_id = k, image_type = ''nps'', url = nps_url img, local_path = None,
      blur_hash = Some (generate_blur_hash e (nps_url img)), width = None, height = None,
      attribution = nps_attribution img, source = Some ''nps'', created_at = now e\<rparr>"

definition unsplash_image_values :: "env \<Rightarrow> int \<Rightarrow> photo \<Rightarrow> image_values" where
  "unsplash_image_values e k ph =
     \<lparr>park_id = k, image_type = ''photo'', url = photo_url ph, local_path = None,
      blur_hash = Some (photo_blur_hash ph), width = Some (photo_width ph),
      height = Some (photo_height ph), attribution = photo_attribution ph,
      source = Some ''unsplash'', created_at = now e\<rparr>"

definition satellite_image_values :: "env \<Rightarrow> int \<Rightarrow> string \<Rightarrow> image_values" where
  "satellite_image_values e k satellite_url =
     \<lparr>park_id = k, image_type = ''satellite'', url = satellite_url, local_path = None,
      blur_hash = None, width = None, height = None, attribution = ''NASA Earth Observatory'',
      source = Some ''nasa'', created_at = now e\<rparr>"

text \<open>The image statements of \<^verbatim>\<open>save_park_data\<close>, after the park statement:
  one per NPS image (its blur hash is downloaded first), one per Unsplash photo, and one
  for a satellite URL that is neither \<^verbatim>\<open>None\<close> nor empty.\<close>

definition world_image_steps ::
  "env \<Rightarrow> int \<Rightarrow> nps_image list \<Rightarrow> photo list \<Rightarrow> string option \<Rightarrow> step list" where
  "world_image_steps e k nps_imgs unsplash_photos satellite_url =
     concat (map (\<lambda>img. [Effect (Download (nps_url img)), Exec (InsertImage (nps_image_values e k img))])
               nps_imgs)
     @ map (\<lambda>ph. Exec (InsertImage (unsplash_image_values e k ph))) unsplash_photos
     @ (case satellite_url of
          None \<Rightarrow> []
        | Some u \<Rightarrow> if u = [] then [] else [Exec (InsertImage (satellite_image_values e k u))])"

definition world_steps ::
  "env \<Rightarrow> park \<Rightarrow> nps_image list \<Rightarrow> photo list \<Rightarrow> bool \<Rightarrow> string option \<Rightarrow> step list" where
  "world_steps e p nps_imgs unsplash_photos validated satellite_url =
     Exec (InsertOrReplacePark (world_park_row e p validated))
     # world_image_steps e (pid p) nps_imgs unsplash_photos satellite_url"

definition save_park_data ::
  "env \<Rightarrow> fetcher \<times> catalog \<Rightarrow> park \<Rightarrow> nps_image list \<Rightarrow> photo list \<Rightarrow> bool \<Rightarrow> string option
     \<Rightarrow> error option \<times> fetcher \<times> catalog" where
  "save_park_data e sd p nps_imgs unsplash_photos validated satellite_url =
     run_transaction e (pid p) (world_steps e p nps_imgs unsplash_photos validated satellite_url) sd"

text \<open>The loop of \<^verbatim>\<open>fetch_all_parks_data\<close>. \<open>delay\<close> is \<^verbatim>\<open>RATE_LIMIT_DELAY\<close>,
  which the file sets to 2.\<close>

definition RATE_LIMIT_DELAY_world :: nat where
  "RATE_LIMIT_DELAY_world = 2"

definition sleep :: "nat \<Rightarrow> fetcher \<Rightarrow> fetcher" where
  "sleep seconds s = emit (Sleep seconds) s"

definition nps_code_map :: "string \<Rightarrow> string" where
  "nps_code_map c =
     (if c = ''yellowstone'' then ''yell'' else if c = ''grand-canyon'' then ''grca''
      else if c = ''yosemite'' then ''yose'' else if c = ''denali'' then ''dena'' else c)"

definition world_fetch_park ::
  "nat \<Rightarrow> env \<Rightarrow> fetcher \<Rightarrow> park
     \<Rightarrow> (nps_image list \<times> photo list \<times> bool \<times> string option) \<times> fetcher" where
  "world_fetch_park delay e s p =
     (case validate_location_with_nasa e s (latitude p) (longitude p) of
        ((validated, satellite_url), s1) \<Rightarrow>
          (case (if country p = ''United States''
                 then (case fetch_nps_images e (sleep delay s1) (nps_code_map (code p)) of
                         (imgs, s2) \<Rightarrow> (imgs, sleep delay s2))
                 else ([], sleep delay s1)) of
             (nps_imgs, s3) \<Rightarrow>
               (case fetch_unsplash_photos e s3 (name p) (country p)
                       (max 1 (5 - int (length nps_imgs))) of
                  (unsplash_photos, s4) \<Rightarrow>
                    ((nps_imgs, unsplash_photos, validated, satellite_url), sleep delay s4))))"

definition world_process_park ::
  "nat \<Rightarrow> env \<Rightarrow> fetcher \<times> catalog \<Rightarrow> park \<Rightarrow> error option \<times> fetcher \<times> catalog" where
  "world_process_park delay e sd p =
     (case world_fetch_park delay e (fst sd) p of
        ((nps_imgs, unsplash_photos, validated, satellite_url), s) \<Rightarrow>
          save_park_data e (s, snd sd) p nps_imgs unsplash_photos validated satellite_url)"

text \<open>A \<^verbatim>\<open>for\<close> loop whose body may raise: the exception ends the loop.\<close>

fun for_each ::
  "('s \<Rightarrow> 'a \<Rightarrow> error option \<times> 's) \<Rightarrow> 'a list \<Rightarrow> 's \<Rightarrow> error option \<times> 's" where
  "for_each body [] s = (None, s)"
| "for_each body (x # xs) s =
     (case body s x of
        (Some err, s1) \<Rightarrow> (Some err, s1)
      | (None, s1) \<Rightarrow> for_each body xs s1)"

text \<open>\<^verbatim>\<open>self.parks[:limit] if limit else self.parks\<close>\<close>

definition parks_to_process :: "park list \<Rightarrow> int option \<Rightarrow> park list" where
  "parks_to_process ps limit =
     (case limit of None \<Rightarrow> ps | Some n \<Rightarrow> if n = 0 then ps else slice_to n ps)"

definition fetch_all_parks_data ::
  "nat \<Rightarrow> env \<Rightarrow> park list \<Rightarrow> int option \<Rightarrow> fetcher \<times> catalog \<Rightarrow> error option \<times> fetcher \<times> catalog" where
  "fetch_all_parks_data delay e ps limit sd =
     for_each (world_process_park delay e) (parks_to_process ps limit) sd"


subsection \<open>fetch\_assets\_mvp.py\<close>

text \<open>
  The three fetch functions of \<^verbatim>\<open>ParkAssetFetcher\<close>. Each has its whole body in
  \<^verbatim>\<open>try\<close> with a handler that prints and lets the function return its empty result
  (\<^verbatim>\<open>[]\<close> or \<^verbatim>\<open>None\<close>). This class keeps no call counters.
\<close>

definition mvp_photo_of :: "raw_photo \<Rightarrow> photo" where
  "mvp_photo_of p =
     \<lparr>photo_url = urls_regular p, thumb_url = urls_thumb p, photo_width = raw_width p,
      photo_height = raw_height p,
      photo_attribution = ''Photo by '' @ user_name p @ '' on Unsplash'',
      photo_blur_hash = raw_blur_hash p\<rparr>"

definition mvp_fetch_unsplash_photos ::
  "env \<Rightarrow> fetcher \<Rightarrow> string \<Rightarrow> int \<Rightarrow> photo list \<times> fetcher" where
  "mvp_fetch_unsplash_photos e s park_name count =
     (let s1 = emit (ApiCall Unsplash) s
      in case unsplash_search e (park_name @ '' National Park landscape'') count of
           None \<Rightarrow> ([], s1)
         | Some response \<Rightarrow>
             if raise_for_status response then ([], s1)
             else (case json response of
                     None \<Rightarrow> ([], s1)
                   | Some results \<Rightarrow> (map mvp_photo_of (slice_to count results), s1)))"

record nps_data =
  full_name :: string
  nd_description :: string
  weather_info :: string
  directions_info :: string
  nd_activities :: "string list"
  nd_topics :: "string list"
  nd_images :: "raw_nps_image list"

definition fetch_nps_data :: "env \<Rightarrow> fetcher \<Rightarrow> string \<Rightarrow> nps_data option \<times> fetcher" where
  "fetch_nps_data e s park_code =
     (let s1 = emit (ApiCall NPS) s
      in case nps_parks e park_code of
           None \<Rightarrow> (None, s1)
         | Some response \<Rightarrow>
             if raise_for_status response then (None, s1)
             else (case json response of
                     None \<Rightarrow> (None, s1)
                   | Some data \<Rightarrow>
                       (case data of
                          [] \<Rightarrow> (None, s1)
                        | park_data # _ \<Rightarrow>
                            (Some \<lparr>full_name = fullName park_data,
                                   nd_description = description park_data,
                                   weather_info = weatherInfo park_data,
                                   directions_info = directionsInfo park_data,
                                   nd_activities = activities_names park_data,
                                   nd_topics = topics_names park_data,
                                   nd_images = slice_to 3 (nps_images park_data)\<rparr>, s1))))"

definition fetch_nasa_satellite_image ::
  "env \<Rightarrow> fetcher \<Rightarrow> real \<Rightarrow> real \<Rightarrow> (bytes \<times> string) option \<times> fetcher" where
  "fetch_nasa_satellite_image e s lat lon =
     (let s1 = emit (ApiCall NASA) s
      in case nasa_imagery e lat lon of
           None \<Rightarrow> (None, s1)
         | Some response \<Rightarrow>
             if raise_for_status response then (None, s1)
             else if is_image response
             then (Some (content response,
                         (case content_type response of None \<Rightarrow> ''image/png'' | Some t \<Rightarrow> t)), s1)
             else (None, s1))"

text \<open>
  \<^verbatim>\<open>download_and_process_image\<close>: download, decode, write the three sizes, encode the
  preview. Any exception on the way makes it return \<^verbatim>\<open>None\<close>.
\<close>

record processed =
  filename :: string
  proc_blur_hash :: string
  proc_width :: int
  proc_height :: int

definition download_and_process_image :: "env \<Rightarrow> string \<Rightarrow> int \<Rightarrow> string \<Rightarrow> processed option" where
  "download_and_process_image e image_url k image_kind =
     (case http_get e image_url of
        None \<Rightarrow> None
      | Some response \<Rightarrow>
          if raise_for_status response then None
          else (case pil_process e (content response) of
                  None \<Rightarrow> None
                | Some (w, h, tiny) \<Rightarrow>
                    (let fname = ''park_'' @ str_int e k @ ''_'' @ image_kind @ ''_''
                                 @ take 8 (md5_hexdigest e image_url) @ ''.jpg''
                     in if can_write e (''original_'' @ fname) \<and> can_write e (''medium_'' @ fname)
                           \<and> can_write e (''thumb_'' @ fname)
                        then Some \<lparr>filename = fname,
                                   proc_blur_hash = ''data:image/jpeg;base64,'' @ tiny,
                                   proc_width = w, proc_height = h\<rparr>
                        else None)))"

definition mvp_park_row :: "env \<Rightarrow> park \<Rightarrow> nps_data option \<Rightarrow> park_row" where
  "mvp_park_row e p nd =
     \<lparr>row_id = pid p, row_name = name p, row_country = None, row_code = code p,
      coordinates_lat = latitude p, coordinates_lon = longitude p, row_biome = biome p,
      row_established = established p, row_area_acres = area_acres p,
      row_summary = (case nd of None \<Rightarrow> summary p | Some d \<Rightarrow> nd_description d),
      row_activities = (case nd of None \<Rightarrow> [] | Some d \<Rightarrow> nd_activities d),
      row_climate = (case nd of None \<Rightarrow> [] | Some d \<Rightarrow> weather_info d),
      nasa_validated = None, updated_at = now e\<rparr>"

definition mvp_image_values :: "env \<Rightarrow> int \<Rightarrow> photo \<Rightarrow> processed \<Rightarrow> image_values" where
  "mvp_image_values e k ph pr =
     \<lparr>park_id = k, image_type = ''photo'', url = photo_url ph, local_path = Some (filename pr),
      blur_hash = Some (proc_blur_hash pr), width = Some (proc_width pr),
      height = Some (proc_height pr), attribution = photo_attribution ph, source = None,
      created_at = now e\<rparr>"

text \<open>The image statements: for each photo the download, and a row only when the
  processing returned something.\<close>

definition mvp_image_steps :: "env \<Rightarrow> int \<Rightarrow> photo list \<Rightarrow> step list" where
  "mvp_image_steps e k unsplash_photos =
     concat (map (\<lambda>ph. Effect (Download (photo_url ph))
                        # (case download_and_process_image e (photo_url ph) k ''photo'' of
                             None \<Rightarrow> []
                           | Some pr \<Rightarrow> [Exec (InsertImage (mvp_image_values e k ph pr))]))
               unsplash_photos)"

definition mvp_steps :: "env \<Rightarrow> park \<Rightarrow> photo list \<Rightarrow> nps_data option \<Rightarrow> step list" where
  "mvp_steps e p unsplash_photos nd =
     Exec (InsertOrReplacePark (mvp_park_row e p nd)) # mvp_image_steps e (pid p) unsplash_photos"

text \<open>The satellite data are a parameter of \<^verbatim>\<open>save_park_data\<close> that its body never reads.\<close>

definition mvp_save_park_data ::
  "env \<Rightarrow> fetcher \<times> catalog \<Rightarrow> park \<Rightarrow> photo list \<Rightarrow> nps_data option \<Rightarrow> (bytes \<times> string) option
     \<Rightarrow> error option \<times> fetcher \<times> catalog" where
  "mvp_save_park_data e sd p unsplash_photos nd satellite_data =
     run_transaction e (pid p) (mvp_steps e p unsplash_photos nd) sd"

definition RATE_LIMIT_DELAY_mvp :: nat where
  "RATE_LIMIT_DELAY_mvp = 72"

definition mvp_fetch_park ::
  "nat \<Rightarrow> env \<Rightarrow> fetcher \<Rightarrow> park
     \<Rightarrow> (photo list \<times> nps_data option \<times> (bytes \<times> string) option) \<times> fetcher" where
  "mvp_fetch_park delay e s p =
     (case mvp_fetch_unsplash_photos e s (name p) 5 of
        (photos, s1) \<Rightarrow>
          (case fetch_nps_data e (sleep delay s1) (code p) of
             (nd, s2) \<Rightarrow>
               (case fetch_nasa_satellite_image e (sleep delay s2) (latitude p) (longitude p) of
                  (satellite, s3) \<Rightarrow> ((photos, nd, satellite), sleep delay s3))))"

definition mvp_process_park ::
  "nat \<Rightarrow> env \<Rightarrow> fetcher \<times> catalog \<Rightarrow> park \<Rightarrow> error option \<times> fetcher \<times> catalog" where
  "mvp_process_park delay e sd p =
     (case mvp_fetch_park delay e (fst sd) p of
        ((photos, nd, satellite), s) \<Rightarrow> mvp_save_park_data e (s, snd sd) p photos nd satellite)"

definition fetch_all_assets ::
  "nat \<Rightarrow> env \<Rightarrow> park list \<Rightarrow> int option \<Rightarrow> fetcher \<times> catalog \<Rightarrow> error option \<times> fetcher \<times> catalog" where
  "fetch_all_assets delay e ps limit sd =
     for_each (mvp_process_park delay e) (parks_to_process ps limit) sd"


section \<open>Downloading the Earth textures\<close>

text \<open>
  The texture scripts download files. A request either raises or is answered with a
  status and a body; the last field is false when the connection breaks before the whole
  body has arrived, and the body is then what had arrived. What a request returns
  depends on its URL and on the moment it is made, which is the number of effects before
  it. The state of a script is the files it has written and its effects so far.
\<close>

datatype reply = Raises | Reply nat bytes bool

type_synonym net = "nat \<Rightarrow> string \<Rightarrow> reply"

record tstate =
  files :: "string \<Rightarrow> bytes option"
  tlog :: "event list"

definition tstate0 :: tstate where
  "tstate0 = \<lparr>files = (\<lambda>path. None), tlog = []\<rparr>"

text \<open>
  What the operating system lets a script do: whether \<^verbatim>\<open>os.makedirs(name, exist_ok=True)\<close>
  returns for a name that is not empty, whether \<^verbatim>\<open>open(path, 'wb')\<close> returns, and
  whether writing a body to the open file raises, with the content the file is then left
  with (\<open>None\<close> when every write returns).
\<close>

record filesystem =
  makedirs_ok :: "string \<Rightarrow> bool"
  open_ok :: "string \<Rightarrow> bool"
  write_fails :: "string \<Rightarrow> bytes \<Rightarrow> bytes option"

text \<open>\<^verbatim>\<open>os.path.dirname\<close>: the path up to its last slash, without the slashes at the end
  of that unless it consists of slashes only. A path without a slash has the empty
  name of directory, for which \<^verbatim>\<open>os.makedirs\<close> raises.\<close>

definition dirname :: "string \<Rightarrow> string" where
  "dirname p =
     (let head = rev (dropWhile (\<lambda>c. c \<noteq> CHR ''/'') (rev p))
      in if head \<noteq> [] \<and> head \<noteq> replicate (length head) (CHR ''/'')
         then rev (dropWhile (\<lambda>c. c = CHR ''/'') (rev head))
         else head)"

definition os_makedirs :: "filesystem \<Rightarrow> string \<Rightarrow> bool" where
  "os_makedirs fs dir = (dir \<noteq> [] \<and> makedirs_ok fs dir)"

subsection \<open>fetch\_hq\_earth\_textures.py\<close>

text \<open>
  The body of \<^verbatim>\<open>try\<close> in \<^verbatim>\<open>download_with_retry\<close>: the request, \<^verbatim>\<open>raise_for_status\<close>,
  \<^verbatim>\<open>os.makedirs\<close> of the directory of the destination, \<^verbatim>\<open>open\<close>, and the chunks written
  to the file as they arrive. Any of these may raise, which ends the attempt; once the
  file has been opened it holds what was written until then. The result says whether the
  body of \<^verbatim>\<open>try\<close> reached \<^verbatim>\<open>return True\<close>. Nothing looks at the size of what arrived,
  except to print it (\<^verbatim>\<open>os.path.getsize\<close> of the file just written).
\<close>

definition attempt_download ::
  "filesystem \<Rightarrow> net \<Rightarrow> string \<Rightarrow> string \<Rightarrow> tstate \<Rightarrow> bool \<times> tstate" where
  "attempt_download fs net u dest_path st =
     (let st1 = st\<lparr>tlog := tlog st @ [Download u]\<rparr>
      in case net (length (tlog st)) u of
           Raises \<Rightarrow> (False, st1)
         | Reply status body whole \<Rightarrow>
             if 400 \<le> status \<and> status < 600 then (False, st1)
             else if \<not> os_makedirs fs (dirname dest_path) then (False, st1)
             else if \<not> open_ok fs dest_path then (False, st1)
             else (case write_fails fs dest_path body of
                     Some partial \<Rightarrow> (False, st1\<lparr>files := (files st1)(dest_path := Some partial)\<rparr>)
                   | None \<Rightarrow> (whole, st1\<lparr>files := (files st1)(dest_path := Some body)\<rparr>)))"

text \<open>The handler: \<^verbatim>\<open>if attempt < max_retries - 1: time.sleep(2)\<close>\<close>

definition after_failure :: "int \<Rightarrow> nat \<Rightarrow> tstate \<Rightarrow> tstate" where
  "after_failure max_retries attempt st =
     (if int attempt < max_retries - 1 then st\<lparr>tlog := tlog st @ [Sleep 2]\<rparr> else st)"

fun download_attempts ::
  "filesystem \<Rightarrow> net \<Rightarrow> string \<Rightarrow> string \<Rightarrow> int \<Rightarrow> nat list \<Rightarrow> tstate \<Rightarrow> bool \<times> tstate" where
  "download_attempts fs net u dest_path max_retries [] st = (False, st)"
| "download_attempts fs net u dest_path max_retries (attempt # rest) st =
     (case attempt_download fs net u dest_path st of
        (True, st1) \<Rightarrow> (True, st1)
      | (False, st1) \<Rightarrow>
          download_attempts fs net u dest_path max_retries rest
            (after_failure max_retries attempt st1))"

text \<open>\<^verbatim>\<open>for attempt in range(max_retries)\<close>\<close>

definition download_with_retry ::
  "filesystem \<Rightarrow> net \<Rightarrow> string \<Rightarrow> string \<Rightarrow> int \<Rightarrow> tstate \<Rightarrow> bool \<times> tstate" where
  "download_with_retry fs net u dest_path max_retries st =
     download_attempts fs net u dest_path max_retries [0..<nat max_retries] st"

text \<open>The loop over the URLs of one texture in \<^verbatim>\<open>main\<close>, with the default of three
  attempts: \<^verbatim>\<open>if download_with_retry(url, dest_path): success = True; break\<close>\<close>

fun try_urls :: "filesystem \<Rightarrow> net \<Rightarrow> string \<Rightarrow> string list \<Rightarrow> tstate \<Rightarrow> bool \<times> tstate" where
  "try_urls fs net dest_path [] st = (False, st)"
| "try_urls fs net dest_path (u # rest) st =
     (case download_with_retry fs net u dest_path 3 st of
        (True, st1) \<Rightarrow> (True, st1)
      | (False, st1) \<Rightarrow> try_urls fs net dest_path rest st1)"

text \<open>\<^verbatim>\<open>dest_path.exists() and os.path.getsize(dest_path) > 100000\<close>: the texture is
  skipped.\<close>

definition already_good :: "tstate \<Rightarrow> string \<Rightarrow> bool" where
  "already_good st dest_path =
     (case files st dest_path of None \<Rightarrow> False | Some body \<Rightarrow> length body > 100000)"

definition fetch_texture ::
  "filesystem \<Rightarrow> net \<Rightarrow> string \<times> string list \<Rightarrow> tstate \<Rightarrow> tstate" where
  "fetch_texture fs net texture st =
     (if already_good st (fst texture) then st
      else snd (try_urls fs net (fst texture) (snd texture) st))"

subsection \<open>create\_earth\_textures.py\<close>

text \<open>
  The download loop of \<^verbatim>\<open>create_earth_textures\<close>: one request per URL, no retry and no
  sleep; a status of exactly 200 opens the file, writes \<^verbatim>\<open>response.content\<close> and ends
  the loop. The request is not streamed, so a broken connection raises inside
  \<^verbatim>\<open>requests.get\<close>. An exception, also one of \<^verbatim>\<open>open\<close> or of the write, is caught and
  the loop goes on with the next URL.
\<close>

fun download_first :: "filesystem \<Rightarrow> net \<Rightarrow> string \<Rightarrow> string list \<Rightarrow> tstate \<Rightarrow> bool \<times> tstate" where
  "download_first fs net texture_path [] st = (False, st)"
| "download_first fs net texture_path (u # rest) st =
     (let st1 = st\<lparr>tlog := tlog st @ [Download u]\<rparr>
      in case net (length (tlog st)) u of
           Raises \<Rightarrow> download_first fs net texture_path rest st1
         | Reply status body whole \<Rightarrow>
             if whole \<and> status = 200
             then (if \<not> open_ok fs texture_path then download_first fs net texture_path rest st1
                   else (case write_fails fs texture_path body of
                           Some partial \<Rightarrow>
                             download_first fs net texture_path rest
                               (st1\<lparr>files := (files st1)(texture_path := Some partial)\<rparr>)
                         | None \<Rightarrow>
                             (True, st1\<lparr>files := (files st1)(texture_path := Some body)\<rparr>)))
             else download_first fs net texture_path rest st1)"





section \<open>Traces of the texture downloads\<close>


text \<open>A reply with which the body of \<^verbatim>\<open>try\<close> in \<^verbatim>\<open>download_with_retry\<close> reaches
  \<^verbatim>\<open>return True\<close>: the status is not 4xx or 5xx, the directory, the file and the writes
  raise nothing, and the body arrives whole.\<close>

definition accepted :: "filesystem \<Rightarrow> string \<Rightarrow> reply \<Rightarrow> bool" where
  "accepted fs dest_path r =
     (case r of
        Raises \<Rightarrow> False
      | Reply status body whole \<Rightarrow>
          whole \<and> \<not> (400 \<le> status \<and> status < 600) \<and> os_makedirs fs (dirname dest_path)
          \<and> open_ok fs dest_path \<and> write_fails fs dest_path body = None)"

text \<open>A reply with which the loop of \<^verbatim>\<open>create_earth_textures\<close> ends.\<close>

definition accepted_first :: "filesystem \<Rightarrow> string \<Rightarrow> reply \<Rightarrow> bool" where
  "accepted_first fs texture_path r =
     (case r of
        Raises \<Rightarrow> False
      | Reply status body whole \<Rightarrow>
          whole \<and> status = 200 \<and> open_ok fs texture_path
          \<and> write_fails fs texture_path body = None)"

text \<open>A file system that allows everything, and one where no file can be opened for
  writing.\<close>

definition fs_ok :: filesystem where
  "fs_ok = \<lparr>makedirs_ok = (\<lambda>dir. True), open_ok = (\<lambda>path. True),
            write_fails = (\<lambda>path body. None)\<rparr>"

definition fs_read_only :: filesystem where
  "fs_read_only = fs_ok\<lparr>open_ok := (\<lambda>path. False)\<rparr>"


definition net_empty_ok :: net where
  "net_empty_ok = (\<lambda>n u. Reply 200 [] True)"


text \<open>The destinations that \<^verbatim>\<open>main\<close> and \<^verbatim>\<open>create_earth_textures\<close> build from their
  output directory.\<close>

definition day_hq_path :: string where
  "day_hq_path = ''../../client/public/textures/earth_day_hq.jpg''"

definition day_path :: string where
  "day_path = ''../../client/public/textures/earth_day.jpg''"

text \<open>A state in which every file is there with 100001 bytes.\<close>

definition tstate_big :: tstate where
  "tstate_big = \<lparr>files = (\<lambda>path. Some (replicate 100001 0)), tlog = []\<rparr>"


section \<open>What a run writes and when it calls\<close>

text \<open>The statements of a line of steps, and their effect on a catalog when all of them
  run.\<close>

fun stmts_of :: "step list \<Rightarrow> stmt list" where
  "stmts_of [] = []"
| "stmts_of (Exec st # rest) = st # stmts_of rest"
| "stmts_of (Effect ev # rest) = stmts_of rest"

definition apply_stmts :: "stmt list \<Rightarrow> catalog \<Rightarrow> catalog" where
  "apply_stmts sts c = fold exec_stmt sts c"


definition mvp_new_rows :: "env \<Rightarrow> park \<Rightarrow> nat" where
  "mvp_new_rows e p =
     (case fst (mvp_fetch_park 0 e fetcher0 p) of
        (photos, nd, satellite) \<Rightarrow>
          length (filter (\<lambda>ph. download_and_process_image e (photo_url ph) (pid p) ''photo'' \<noteq> None)
                    photos))"

text \<open>Two requests to the provider \<open>pr\<close> with nothing between them: no sleep, and no
  other request.\<close>

fun back_to_back :: "provider \<Rightarrow> event list \<Rightarrow> bool" where
  "back_to_back pr (a # b # evs) =
     ((a = ApiCall pr \<and> b = ApiCall pr) \<or> back_to_back pr (b # evs))"
| "back_to_back pr evs = False"

text \<open>The number of requests to a provider in a trace.\<close>

definition calls_to :: "provider \<Rightarrow> event list \<Rightarrow> nat" where
  "calls_to pr evs = length (filter (\<lambda>ev. ev = ApiCall pr) evs)"


text \<open>The rows that the image statements of a park insert.\<close>

definition world_image_rows ::
  "env \<Rightarrow> int \<Rightarrow> nps_image list \<Rightarrow> photo list \<Rightarrow> string option \<Rightarrow> image_values list" where
  "world_image_rows e k nps_imgs unsplash_photos satellite_url =
     map (nps_image_values e k) nps_imgs @ map (unsplash_image_values e k) unsplash_photos
     @ (case satellite_url of
          None \<Rightarrow> []
        | Some u \<Rightarrow> if u = [] then [] else [satellite_image_values e k u])"

definition mvp_image_rows :: "env \<Rightarrow> int \<Rightarrow> photo list \<Rightarrow> image_values list" where
  "mvp_image_rows e k unsplash_photos =
     concat (map (\<lambda>ph. case download_and_process_image e (photo_url ph) k ''photo'' of
                          None \<Rightarrow> []
                        | Some pr \<Rightarrow> [mvp_image_values e k ph pr])
               unsplash_photos)"


definition mvp_fetched :: "env \<Rightarrow> park \<Rightarrow> photo list \<times> nps_data option \<times> (bytes \<times> string) option" where
  "mvp_fetched e p = fst (mvp_fetch_park 0 e fetcher0 p)"


section \<open>Python floats\<close>

text \<open>
  A Python float is an IEEE double. Every finite double is a real number, and an
  operation on doubles (\<^verbatim>\<open>+\<close>, \<^verbatim>\<open>-\<close>, \<^verbatim>\<open>*\<close>, \<^verbatim>\<open>/\<close>, \<^verbatim>\<open>**2\<close>, \<^verbatim>\<open>np.sqrt\<close>) returns the
  double nearest to the exact result. The definitions below take this rounding as a
  parameter \<open>fl\<close>. What is proved about them uses only that rounding keeps the order and
  leaves the integers up to \<open>2 ^ 53\<close> unchanged, which is what \<open>rounding\<close> says; the
  identity, arithmetic without rounding, is one such function. Comparisons, \<^verbatim>\<open>np.clip\<close>,
  \<^verbatim>\<open>int()\<close> and the conversion to \<^verbatim>\<open>uint8\<close> do not round.
\<close>

definition rounding :: "(real \<Rightarrow> real) \<Rightarrow> bool" where
  "rounding fl \<longleftrightarrow>
     (\<forall>x y. x \<le> y \<longrightarrow> fl x \<le> fl y)
     \<and> (\<forall>k :: int. \<bar>k\<bar> \<le> 2 ^ 53 \<longrightarrow> fl (real_of_int k) = real_of_int k)"

definition exact :: "real \<Rightarrow> real" where
  "exact x = x"


section \<open>The procedural layers\<close>

text \<open>
  The procedural layers are \<^verbatim>\<open>numpy\<close> arrays of type \<^verbatim>\<open>uint8\<close>. A raster maps a row
  and a column to the channels of the pixel there.
\<close>

type_synonym raster = "int \<times> int \<Rightarrow> 8 word list"

text \<open>Python's \<^verbatim>\<open>int(x)\<close> on a float truncates towards zero, and so does the
  conversion of a float in the range of \<^verbatim>\<open>uint8\<close> when it is stored in the array.\<close>

definition py_int :: "real \<Rightarrow> int" where
  "py_int x = (if x < 0 then \<lceil>x\<rceil> else \<lfloor>x\<rfloor>)"

definition astype_uint8 :: "real \<Rightarrow> 8 word" where
  "astype_uint8 x = word_of_int (py_int x)"

definition np_clip :: "real \<Rightarrow> real \<Rightarrow> real \<Rightarrow> real" where
  "np_clip x lo hi = min hi (max lo x)"

subsection \<open>create\_earth\_textures.py: the cloud layer\<close>

text \<open>
  \<^verbatim>\<open>clouds[cy, cx % width, 3] + alpha // 2\<close> adds a Python integer to a \<^verbatim>\<open>uint8\<close>
  scalar. What \<^verbatim>\<open>numpy\<close> returns depends on its version, which the repository does
  not fix: before version 2 the sum is a 64-bit integer; from version 2 on the Python
  integer is converted to \<^verbatim>\<open>uint8\<close> (an \<^verbatim>\<open>OverflowError\<close> if it does not fit) and the sum
  is taken in \<^verbatim>\<open>uint8\<close>, modulo 256.
\<close>

datatype numpy = Before2 | From2

definition scalar_add :: "numpy \<Rightarrow> 8 word \<Rightarrow> int \<Rightarrow> int option" where
  "scalar_add np a k =
     (case np of
        Before2 \<Rightarrow> Some (uint a + k)
      | From2 \<Rightarrow> if 0 \<le> k \<and> k \<le> 255 then Some (uint (a + word_of_int k)) else None)"

text \<open>\<^verbatim>\<open>min(255, clouds[cy, cx % width, 3] + alpha // 2)\<close>, stored as the alpha
  channel.\<close>

definition cloud_alpha :: "numpy \<Rightarrow> 8 word \<Rightarrow> int \<Rightarrow> 8 word option" where
  "cloud_alpha np old alpha =
     map_option (\<lambda>v. word_of_int (min 255 v)) (scalar_add np old (alpha div 2))"

text \<open>A cloud: the pixel of its centre and its two half axes, as the loop computes them
  from its random draws. The half axes are drawn from 50 to 149 and from 30 to 79.\<close>

record cloud =
  cloud_y :: int
  cloud_x :: int
  size_y :: int
  size_x :: int

text \<open>\<^verbatim>\<open>dist = np.sqrt(((cx - x) / size_x)**2 + ((cy - y) / size_y)**2)\<close>, and for
  \<^verbatim>\<open>dist < 1\<close> the value \<^verbatim>\<open>alpha = int((1 - dist) * 255)\<close>.\<close>

definition cloud_strength :: "(real \<Rightarrow> real) \<Rightarrow> cloud \<Rightarrow> int \<Rightarrow> int \<Rightarrow> int option" where
  "cloud_strength fl b cy cx =
     (let dx = fl (real_of_int (cx - cloud_x b) / real_of_int (size_x b));
          dy = fl (real_of_int (cy - cloud_y b) / real_of_int (size_y b));
          dist = fl (sqrt (fl (fl (dx\<^sup>2) + fl (dy\<^sup>2))))
      in if dist < 1 then Some (py_int (fl (fl (1 - dist) * 255))) else None)"

text \<open>The body of the two loops:
  \<^verbatim>\<open>clouds[cy, cx % width] = [255, 255, 255, min(255, clouds[cy, cx % width, 3] + alpha // 2)]\<close>\<close>

definition cloud_visit ::
  "numpy \<Rightarrow> (real \<Rightarrow> real) \<Rightarrow> int \<Rightarrow> cloud \<Rightarrow> int \<times> int \<Rightarrow> raster \<Rightarrow> raster option" where
  "cloud_visit np fl w b pos clouds =
     (case cloud_strength fl b (fst pos) (snd pos) of
        None \<Rightarrow> Some clouds
      | Some alpha \<Rightarrow>
          map_option (\<lambda>a. clouds((fst pos, snd pos mod w) := [255, 255, 255, a]))
            (cloud_alpha np (clouds (fst pos, snd pos mod w) ! 3) alpha))"

text \<open>A loop whose body may raise.\<close>

fun fold_option :: "('a \<Rightarrow> 's \<Rightarrow> 's option) \<Rightarrow> 'a list \<Rightarrow> 's \<Rightarrow> 's option" where
  "fold_option f [] s = Some s"
| "fold_option f (x # xs) s = (case f x s of None \<Rightarrow> None | Some s1 \<Rightarrow> fold_option f xs s1)"

text \<open>One cloud: \<^verbatim>\<open>for cy in range(y_start, y_end): for cx in range(x_start, x_end)\<close>
  with \<^verbatim>\<open>y_start = max(0, y - size_y)\<close>, \<^verbatim>\<open>y_end = min(height, y + size_y)\<close> and the same
  for the columns.\<close>

definition add_cloud ::
  "numpy \<Rightarrow> (real \<Rightarrow> real) \<Rightarrow> int \<Rightarrow> int \<Rightarrow> cloud \<Rightarrow> raster \<Rightarrow> raster option" where
  "add_cloud np fl w h b clouds =
     fold_option (cloud_visit np fl w b)
       (concat (map (\<lambda>cy. map (\<lambda>cx. (cy, cx))
                              [max 0 (cloud_x b - size_x b)..min w (cloud_x b + size_x b) - 1])
                  [max 0 (cloud_y b - size_y b)..min h (cloud_y b + size_y b) - 1]))
       clouds"

text \<open>The layer: \<^verbatim>\<open>clouds = np.zeros((height, width, 4), dtype=np.uint8)\<close> and the clouds
  one after the other.\<close>

definition create_clouds ::
  "numpy \<Rightarrow> (real \<Rightarrow> real) \<Rightarrow> int \<Rightarrow> int \<Rightarrow> cloud list \<Rightarrow> raster option" where
  "create_clouds np fl w h blobs = fold_option (add_cloud np fl w h) blobs (\<lambda>pos. [0, 0, 0, 0])"

subsection \<open>fetch\_earth\_textures\_v2.py: the day layer\<close>

text \<open>
  \<^verbatim>\<open>main\<close> of fetch\_earth\_textures\_v2.py writes a generator of procedural textures to
  \<^verbatim>\<open>generate_earth_textures.py\<close> and runs it. The generator fills the day layer with the
  colour of the ocean, paints six rectangles in the colour of the land
  (\<^verbatim>\<open>day_texture[350:700, 900:1150] = [139, 90, 43]\<close> and so on), and adds noise:
  \<^verbatim>\<open>noise = np.random.normal(0, 10, (height, width, 3))\<close>,
  \<^verbatim>\<open>day_texture = np.clip(day_texture + noise, 0, 255).astype(np.uint8)\<close>.
  This is the first draw of the script. \<^verbatim>\<open>np.random.seed(42)\<close> is called after it,
  before the lights of the night layer are drawn, so the noise comes from the state in which
  \<^verbatim>\<open>numpy\<close> starts its global generator, which it takes from the operating system.

  The algorithm of the generator is not part of the repository: a draw is given by the
  array it returns from a state, indexed by row, column and channel, and the state it
  leaves.
\<close>

type_synonym 'g normal_draw =
  "real \<Rightarrow> real \<Rightarrow> nat \<times> nat \<times> nat \<Rightarrow> 'g \<Rightarrow> (int \<times> int \<times> nat \<Rightarrow> real) \<times> 'g"

text \<open>\<^verbatim>\<open>day_texture[y0:y1, x0:x1] = colour\<close>\<close>

definition fill :: "int \<times> int \<times> int \<times> int \<Rightarrow> 8 word list \<Rightarrow> raster \<Rightarrow> raster" where
  "fill box colour tex =
     (case box of
        (y0, y1, x0, x1) \<Rightarrow>
          (\<lambda>pos. if y0 \<le> fst pos \<and> fst pos < y1 \<and> x0 \<le> snd pos \<and> snd pos < x1 then colour
                  else tex pos))"

text \<open>Africa, Europe, Asia, North America, South America, Australia.\<close>

definition continents :: "(int \<times> int \<times> int \<times> int) list" where
  "continents = [(350, 700, 900, 1150), (200, 350, 900, 1100), (200, 500, 1100, 1600),
                 (200, 500, 200, 600), (500, 800, 300, 500), (600, 750, 1400, 1600)]"

definition day_base :: raster where
  "day_base = fold (\<lambda>box. fill box [139, 90, 43]) continents (\<lambda>pos. [70, 130, 180])"

text \<open>The sum of the \<^verbatim>\<open>uint8\<close> array and the array of floats is an array of floats; it is
  clipped and converted.\<close>

definition add_noise :: "(real \<Rightarrow> real) \<Rightarrow> raster \<Rightarrow> (int \<times> int \<times> nat \<Rightarrow> real) \<Rightarrow> raster" where
  "add_noise fl tex noise =
     (\<lambda>pos. map (\<lambda>c. astype_uint8
                         (np_clip (fl (real_of_int (uint (tex pos ! c)) + noise (fst pos, snd pos, c)))
                            0 255))
               [0, 1, 2])"

text \<open>The day layer that is saved as \<^verbatim>\<open>earth_day.jpg\<close>, and the state of the generator
  after it, from the state \<open>g\<close> in which the script starts.\<close>

definition procedural_day :: "(real \<Rightarrow> real) \<Rightarrow> 'g normal_draw \<Rightarrow> 'g \<Rightarrow> raster \<times> 'g" where
  "procedural_day fl normal g =
     (case normal 0 10 (1024, 2048, 3) g of
        (noise, g1) \<Rightarrow> (add_noise fl day_base noise, g1))"


section \<open>The sizes of the processed images\<close>

text \<open>
  \<^verbatim>\<open>download_and_process_image\<close> of fetch\_assets\_mvp.py copies the decoded image once
  for each entry of \<^verbatim>\<open>sizes\<close>, calls \<^verbatim>\<open>thumbnail(dimensions, Image.Resampling.LANCZOS)\<close>
  on the copy and saves it as JPEG of quality 85; then it does the same with the
  dimensions \<^verbatim>\<open>(20, 20)\<close> and quality 20 for the preview.
\<close>

definition sizes :: "(string \<times> int \<times> int) list" where
  "sizes = [(''original'', 1920, 1080), (''medium'', 800, 600), (''thumb'', 400, 300)]"

text \<open>
  Modelled from the spec: \<^verbatim>\<open>Image.thumbnail\<close> belongs to Pillow and is not in the
  repository. Section 4.3 of the specification asks for a copy within the bounding box
  of the preset that preserves the aspect ratio and is never larger than the source.
  The size is computed here as the documentation and the source of Pillow describe it,
  in exact arithmetic: an image that fits the box keeps its size; otherwise the side
  that the box leaves free is the other side times the aspect ratio, rounded down or
  up, whichever keeps the ratio better (down if both do equally), and at least 1.
\<close>

definition round_aspect :: "real \<Rightarrow> (int \<Rightarrow> real) \<Rightarrow> int" where
  "round_aspect number key =
     max (if key \<lceil>number\<rceil> < key \<lfloor>number\<rfloor> then \<lceil>number\<rceil> else \<lfloor>number\<rfloor>) 1"

definition thumbnail_size :: "int \<times> int \<Rightarrow> int \<times> int \<Rightarrow> int \<times> int" where
  "thumbnail_size src box =
     (case src of
        (w, h) \<Rightarrow>
          (case box of
             (x, y) \<Rightarrow>
               if w \<le> x \<and> h \<le> y then (w, h)
               else (let aspect = real_of_int w / real_of_int h
                     in if aspect \<le> real_of_int x / real_of_int y
                        then (round_aspect (real_of_int y * aspect)
                                (\<lambda>n. \<bar>aspect - real_of_int n / real_of_int y\<bar>), y)
                        else (x, round_aspect (real_of_int x / aspect)
                                   (\<lambda>n. if n = 0 then 0
                                         else \<bar>aspect - real_of_int x / real_of_int n\<bar>)))))"

text \<open>The sizes and the JPEG quality of the three copies, and of the preview.\<close>

definition resized_copies :: "int \<times> int \<Rightarrow> (string \<times> (int \<times> int) \<times> nat) list" where
  "resized_copies src =
     map (\<lambda>entry. (fst entry, thumbnail_size src (snd entry), 85)) sizes"

definition preview :: "int \<times> int \<Rightarrow> (int \<times> int) \<times> nat" where
  "preview src = (thumbnail_size src (20, 20), 20)"

text \<open>The aspect ratio is kept within a pixel: one side is less than a pixel away from
  what the other side and the aspect ratio of the source give.\<close>

definition keeps_aspect :: "int \<times> int \<Rightarrow> int \<times> int \<Rightarrow> bool" where
  "keeps_aspect src out =
     (\<bar>real_of_int (fst out) - real_of_int (snd out) * (real_of_int (fst src) / real_of_int (snd src))\<bar> < 1
      \<or> \<bar>real_of_int (snd out) - real_of_int (fst out) * (real_of_int (snd src) / real_of_int (fst src))\<bar> < 1)"


section \<open>Concrete environments\<close>

text \<open>
  \<open>env_down\<close>: every request raises. The other environments change one answer.
  \<open>sample_park\<close> is a park outside the United States, \<open>us_park\<close> one inside.
\<close>

definition env_down :: env where
  "env_down =
     \<lparr>nasa_assets = (\<lambda>lat lon. None), nasa_imagery = (\<lambda>lat lon. None),
      nps_parks = (\<lambda>c. None), unsplash_search = (\<lambda>q n. None), http_get = (\<lambda>u. None),
      can_write = (\<lambda>path. True), str_float = (\<lambda>x. ''10.0''), str_int = (\<lambda>k. ''1''),
      md5_hexdigest = (\<lambda>u. ''0123456789abcdef0123456789abcdef''),
      pil_process = (\<lambda>b. None), now = 0, db_error = (\<lambda>k. None)\<rparr>"

definition sample_park :: park where
  "sample_park =
     \<lparr>pid = 1, name = ''Sample Park'', country = ''Kenya'', code = ''sample'', latitude = 10,
      longitude = 20, biome = ''savanna'', established = 1950, area_acres = 1000,
      summary = ''A park''\<rparr>"

definition other_park :: park where
  "other_park = sample_park\<lparr>pid := 2, name := ''Other Park'', code := ''other''\<rparr>"

definition sample_raw_photo :: raw_photo where
  "sample_raw_photo =
     \<lparr>urls_raw = None, urls_regular = ''https://images.example/p1'',
      urls_thumb = ''https://images.example/t1'', raw_width = 4000, raw_height = 3000,
      user_name = ''Ann'', raw_blur_hash = ''L65Yk''\<rparr>"

text \<open>The NASA assets request answers 404.\<close>

definition env_nasa_404 :: env where
  "env_nasa_404 =
     env_down\<lparr>nasa_assets := (\<lambda>lat lon.
        Some \<lparr>status_code = 404, content_type = None, content = [], json = None\<rparr>)\<rparr>"

text \<open>The NASA assets request answers 200 and reports no asset.\<close>

definition env_nasa_none :: env where
  "env_nasa_none =
     env_down\<lparr>nasa_assets := (\<lambda>lat lon.
        Some \<lparr>status_code = 200, content_type = None, content = [], json = Some 0\<rparr>)\<rparr>"

text \<open>The NASA assets request answers 200 and reports one asset; the image request
  raises.\<close>

definition env_nasa_found :: env where
  "env_nasa_found =
     env_down\<lparr>nasa_assets := (\<lambda>lat lon.
        Some \<lparr>status_code = 200, content_type = None, content = [], json = Some 1\<rparr>)\<rparr>"

text \<open>The Unsplash search answers 200 with one photo, whatever the query.\<close>

definition env_one_photo :: env where
  "env_one_photo =
     env_down\<lparr>unsplash_search := (\<lambda>q n.
        Some \<lparr>status_code = 200, content_type = None, content = [],
              json = Some [sample_raw_photo]\<rparr>)\<rparr>"

text \<open>Every request raises, and SQLite raises at the first statement for park 1.\<close>

definition env_db_fails :: env where
  "env_db_fails = env_down\<lparr>db_error := (\<lambda>k. if k = 1 then Some 0 else None)\<rparr>"


text \<open>The download of an image answers 200, and PIL decodes an image of 4000 by 3000
  pixels.\<close>

definition env_processed :: env where
  "env_processed =
     env_down\<lparr>http_get := (\<lambda>u.
        Some \<lparr>status_code = 200, content_type = Some ''image/jpeg'', content = [255, 216, 255],
              json = None\<rparr>),
      pil_process := (\<lambda>b. Some (4000, 3000, ''/9j/4AAQ''))\<rparr>"

text \<open>A cloud in the middle of the layer.\<close>

definition sample_cloud :: cloud where
  "sample_cloud = \<lparr>cloud_y = 512, cloud_x = 1024, size_y = 40, size_x = 60\<rparr>"

text \<open>A generator whose state counts its draws: every entry of the array it returns is
  the mean plus the count times the scale.\<close>

definition counting_normal :: "nat normal_draw" where
  "counting_normal loc scale shape g = (\<lambda>index. loc + scale * real g, g + 1)"


section \<open>Properties\<close>

subsection \<open>The NASA validation flag\<close>

text \<open>
  Claim C10. \<^verbatim>\<open>validate_location_with_nasa\<close> reports the location as valid exactly when
  nothing raised: its first result is \<open>False\<close> if and only if an exception occurred
  (and then the second is \<^verbatim>\<open>None\<close>). In particular a status other than 200, and a
  status of 200 with a count of zero or less, both give \<^verbatim>\<open>(True, None)\<close>: the flag
  stored in the catalog does not say that the provider confirmed the location.
\<close>

theorem validate_location_valid_unless_exception:
  "fst (fst (validate_location_with_nasa e s lat lon)) = (\<not> nasa_raises e lat lon)
   \<and> (nasa_raises e lat lon \<longrightarrow> fst (validate_location_with_nasa e s lat lon) = (False, None))
   \<and> (\<forall>response. nasa_assets e lat lon = Some response \<and> status_code response \<noteq> 200
         \<longrightarrow> fst (validate_location_with_nasa e s lat lon) = (True, None))
   \<and> (\<forall>response count. nasa_assets e lat lon = Some response \<and> status_code response = 200
           \<and> json response = Some count \<and> count \<le> 0
         \<longrightarrow> fst (validate_location_with_nasa e s lat lon) = (True, None))"
  by (auto simp: validate_location_with_nasa_def nasa_raises_def Let_def
           split: option.splits)

theorem validate_location_valid_unless_exception_witness:
  "nasa_assets env_nasa_404 10 20
     = Some \<lparr>status_code = 404, content_type = None, content = [], json = None\<rparr>
   \<and> \<not> nasa_raises env_nasa_404 10 20
   \<and> fst (validate_location_with_nasa env_nasa_404 fetcher0 10 20) = (True, None)
   \<and> nasa_assets env_nasa_none 10 20
     = Some \<lparr>status_code = 200, content_type = None, content = [], json = Some 0\<rparr>
   \<and> fst (validate_location_with_nasa env_nasa_none fetcher0 10 20) = (True, None)
   \<and> nasa_raises env_down 10 20
   \<and> fst (validate_location_with_nasa env_down fetcher0 10 20) = (False, None)"
  using validate_location_valid_unless_exception [of env_nasa_404 fetcher0 10 20]
        validate_location_valid_unless_exception [of env_nasa_none fetcher0 10 20]
        validate_location_valid_unless_exception [of env_down fetcher0 10 20]
  by (simp add: env_nasa_404_def env_nasa_none_def env_down_def nasa_raises_def)

subsection \<open>Fetching with retries and fallback\<close>













lemma dirname_day_hq_path: "dirname day_hq_path = ''../../client/public/textures''"
  by (simp add: dirname_def day_hq_path_def)







subsection \<open>The size of a downloaded payload\<close>

text \<open>
  Claim C7, as amended. An accepted reply (a status that is not 4xx or 5xx, the body
  arrived whole, the directory made and the file written) makes \<^verbatim>\<open>download_with_retry\<close>
  return \<^verbatim>\<open>True\<close> with the body as the content of the destination, whatever the size
  of the body; likewise a reply of status 200 in \<^verbatim>\<open>create_earth_textures\<close>. The only
  size that \<^verbatim>\<open>main\<close> of fetch\_hq\_earth\_textures.py compares is that of a file that
  is already there: a texture whose file has more than 100000 bytes is skipped, and
  any other is downloaded.
\<close>

theorem payload_size_is_not_checked:
  "(net (length (tlog st)) u = Reply status body whole
      \<and> accepted fs d (Reply status body whole) \<and> 1 \<le> m
      \<longrightarrow> fst (download_with_retry fs net u d m st)
          \<and> files (snd (download_with_retry fs net u d m st)) d = Some body)
   \<and> (net (length (tlog st)) u = Reply status body whole
      \<and> accepted_first fs d (Reply status body whole)
      \<longrightarrow> fst (download_first fs net d (u # rest) st)
          \<and> files (snd (download_first fs net d (u # rest) st)) d = Some body)
   \<and> already_good st d = (\<exists>b. files st d = Some b \<and> 100000 < length b)
   \<and> (already_good st d \<longrightarrow> fetch_texture fs net (d, urls) st = st)
   \<and> (\<not> already_good st d \<longrightarrow> fetch_texture fs net (d, urls) st = snd (try_urls fs net d urls st))"
proof -
  have a: "fst (download_with_retry fs net u d m st)
          \<and> files (snd (download_with_retry fs net u d m st)) d = Some body"
    if h: "net (length (tlog st)) u = Reply status body whole"
          "accepted fs d (Reply status body whole)" "1 \<le> m"
  proof -
    from h(3) have "[0..<nat m] = 0 # [Suc 0..<nat m]" by (simp add: upt_rec)
    then show ?thesis using h(1,2)
      by (auto simp: download_with_retry_def attempt_download_def accepted_def Let_def)
  qed
  have b: "fst (download_first fs net d (u # rest) st)
          \<and> files (snd (download_first fs net d (u # rest) st)) d = Some body"
    if h: "net (length (tlog st)) u = Reply status body whole"
          "accepted_first fs d (Reply status body whole)"
    using h by (auto simp: accepted_first_def Let_def)
  show ?thesis using a b
    by (auto simp: already_good_def fetch_texture_def Let_def split: option.splits)
qed

theorem payload_size_is_not_checked_witness:
  "net_empty_ok (length (tlog tstate0)) ''https://a'' = Reply 200 [] True
   \<and> accepted fs_ok day_hq_path (Reply 200 [] True)
   \<and> accepted_first fs_ok day_path (Reply 200 [] True)
   \<and> fst (download_with_retry fs_ok net_empty_ok ''https://a'' day_hq_path 3 tstate0)
   \<and> files (snd (download_with_retry fs_ok net_empty_ok ''https://a'' day_hq_path 3 tstate0))
        day_hq_path = Some []
   \<and> fst (download_first fs_ok net_empty_ok day_path [''https://a''] tstate0)
   \<and> \<not> already_good tstate0 day_hq_path
   \<and> already_good tstate_big day_hq_path
   \<and> fetch_texture fs_ok net_empty_ok (day_hq_path, [''https://a'']) tstate_big = tstate_big"
  using payload_size_is_not_checked
          [of net_empty_ok tstate0 "''https://a''" 200 "[]" True fs_ok day_hq_path 3 "[]" "[]"]
        payload_size_is_not_checked
          [of net_empty_ok tstate0 "''https://a''" 200 "[]" True fs_ok day_path 3 "[]" "[]"]
        payload_size_is_not_checked
          [of net_empty_ok tstate_big "''https://a''" 200 "[]" True fs_ok day_hq_path 3 "[]"
              "[''https://a'']"]
        dirname_day_hq_path
  by (simp add: net_empty_ok_def tstate0_def tstate_big_def accepted_def accepted_first_def
        fs_ok_def os_makedirs_def)

text \<open>
  Claim C7 as stated fails: a reply of status 200 with an empty body is accepted, and
  the empty file is what the texture then is.
\<close>

theorem empty_payload_accepted_counterexample:
  "fst (download_with_retry fs_ok net_empty_ok ''https://a'' day_hq_path 3 tstate0)
   \<and> files (snd (download_with_retry fs_ok net_empty_ok ''https://a'' day_hq_path 3 tstate0))
        day_hq_path = Some []
   \<and> fst (download_first fs_ok net_empty_ok day_path [''https://a''] tstate0)
   \<and> files (snd (download_first fs_ok net_empty_ok day_path [''https://a''] tstate0))
        day_path = Some []"
  by (simp add: download_with_retry_def upt_rec attempt_download_def net_empty_ok_def tstate0_def
        Let_def fs_ok_def os_makedirs_def dirname_day_hq_path)

subsection \<open>Transactions\<close>

lemma run_steps_disk:
  "disk (fst (snd (run_steps fault n steps conn evs))) = disk conn"
  by (induction fault n steps conn evs rule: run_steps.induct) (auto simp: execute_def)

lemma run_steps_raised:
  "fst (run_steps fault n steps conn evs)
     = (\<exists>k. fault = Some k \<and> n \<le> k \<and> k < n + length (stmts_of steps))"
  by (induction fault n steps conn evs rule: run_steps.induct) auto

lemma run_steps_commit:
  "\<not> fst (run_steps fault n steps conn evs) \<Longrightarrow>
     disk (commit (fst (snd (run_steps fault n steps conn evs))))
       = apply_stmts (stmts_of steps) (case txn conn of None \<Rightarrow> disk conn | Some w \<Rightarrow> w)"
proof (induction fault n steps conn evs rule: run_steps.induct)
  case (1 fault n conn evs)
  then show ?case by (simp add: commit_def apply_stmts_def split: option.splits)
next
  case (2 fault n ev rest conn evs)
  then show ?case by simp
next
  case (3 fault n st rest conn evs)
  then show ?case by (auto simp: execute_def apply_stmts_def split: if_splits)
qed

lemma run_transaction_db:
  "snd (snd (run_transaction e k steps (s, db)))
     = (if fst (run_transaction e k steps (s, db)) = None then apply_stmts (stmts_of steps) db else db)"
proof -
  obtain raised conn evs where r: "run_steps (db_error e k) 0 steps (connect db) (events s) = (raised, conn, evs)"
    by (cases "run_steps (db_error e k) 0 steps (connect db) (events s)")
  have d: "disk conn = db" using run_steps_disk [of "db_error e k" 0 steps "connect db" "events s"] r
    by (simp add: connect_def)
  have c: "\<not> raised \<Longrightarrow> disk (commit conn) = apply_stmts (stmts_of steps) db"
    using run_steps_commit [of "db_error e k" 0 steps "connect db" "events s"] r
    by (simp add: connect_def)
  show ?thesis using r d c by (simp add: run_transaction_def)
qed

lemma run_transaction_error:
  "(fst (run_transaction e k steps (s, db)) = None)
     = (\<not> (\<exists>j. db_error e k = Some j \<and> j < length (stmts_of steps)))"
proof -
  obtain raised conn evs where r: "run_steps (db_error e k) 0 steps (connect db) (events s) = (raised, conn, evs)"
    by (cases "run_steps (db_error e k) 0 steps (connect db) (events s)")
  have "raised = (\<exists>j. db_error e k = Some j \<and> j < length (stmts_of steps))"
    using run_steps_raised [of "db_error e k" 0 steps "connect db" "events s"] r by simp
  then show ?thesis using r by (simp add: run_transaction_def)
qed

lemma images_insert:
  "images (fold exec_stmt (map InsertImage vs) c)
     = images c @ map (\<lambda>(v, k). image_values.extend v (image_row.fields k))
                     (zip vs [Suc (images_seq c)..<Suc (images_seq c) + length vs])
   \<and> parks (fold exec_stmt (map InsertImage vs) c) = parks c
   \<and> images_seq (fold exec_stmt (map InsertImage vs) c) = images_seq c + length vs"
proof (induction vs arbitrary: c)
  case Nil
  then show ?case by simp
next
  case (Cons v vs)
  have "[Suc (images_seq c)..<Suc (images_seq c) + length (v # vs)]
          = Suc (images_seq c) # [Suc (Suc (images_seq c))..<Suc (Suc (images_seq c)) + length vs]"
    by (simp add: upt_rec)
  then show ?case using Cons.IH [of "exec_stmt (InsertImage v) c"] by simp
qed

lemma park_id_extend: "park_id (image_values.extend v m) = park_id v"
  by (simp add: image_values.defs)


lemma stmts_of_append: "stmts_of (xs @ ys) = stmts_of xs @ stmts_of ys"
  by (induction xs rule: stmts_of.induct) auto

lemma stmts_of_world_image_steps:
  "stmts_of (world_image_steps e k nps ph sat) = map InsertImage (world_image_rows e k nps ph sat)"
proof -
  have a: "stmts_of (concat (map (\<lambda>img. [Effect (Download (nps_url img)),
                                Exec (InsertImage (nps_image_values e k img))]) nps))
             = map InsertImage (map (nps_image_values e k) nps)"
    by (induction nps) auto
  have b: "stmts_of (map (\<lambda>ph. Exec (InsertImage (unsplash_image_values e k ph))) ph)
             = map InsertImage (map (unsplash_image_values e k) ph)"
    by (induction ph) auto
  show ?thesis using a b
    by (simp add: world_image_steps_def world_image_rows_def stmts_of_append split: option.splits)
qed

lemma stmts_of_mvp_image_steps:
  "stmts_of (mvp_image_steps e k photos) = map InsertImage (mvp_image_rows e k photos)"
  by (induction photos)
     (auto simp: mvp_image_steps_def mvp_image_rows_def stmts_of_append split: option.splits)

lemma park_id_world_image_rows:
  "iv \<in> set (world_image_rows e k nps ph sat) \<Longrightarrow> park_id iv = k"
  by (auto simp: world_image_rows_def nps_image_values_def unsplash_image_values_def
        satellite_image_values_def split: option.splits if_splits)

lemma park_id_mvp_image_rows:
  "iv \<in> set (mvp_image_rows e k photos) \<Longrightarrow> park_id iv = k"
  by (auto simp: mvp_image_rows_def mvp_image_values_def split: option.splits)

lemma apply_upsert_then_images:
  "parks (apply_stmts (InsertOrReplacePark r # map InsertImage vs) db)
     = filter (\<lambda>q. row_id q \<noteq> row_id r \<and> row_code q \<noteq> row_code r) (parks db) @ [r]
   \<and> length (images (apply_stmts (InsertOrReplacePark r # map InsertImage vs) db))
       = length (images db) + length vs
   \<and> (\<forall>i \<in> set (images (apply_stmts (InsertOrReplacePark r # map InsertImage vs) db)).
         i \<in> set (images db) \<or> park_id i \<in> park_id ` set vs)"
proof -
  define c where "c = exec_stmt (InsertOrReplacePark r) db"
  define new where "new = map (\<lambda>(v, k). image_values.extend v (image_row.fields k))
                     (zip vs [Suc (images_seq c)..<Suc (images_seq c) + length vs])"
  have i: "images c = images db" and p: "parks c
     = filter (\<lambda>q. row_id q \<noteq> row_id r \<and> row_code q \<noteq> row_code r) (parks db) @ [r]"
    by (simp_all add: c_def)
  have a: "apply_stmts (InsertOrReplacePark r # map InsertImage vs) db
             = fold exec_stmt (map InsertImage vs) c"
    by (simp add: apply_stmts_def c_def)
  have im: "images (fold exec_stmt (map InsertImage vs) c) = images c @ new"
    and pk: "parks (fold exec_stmt (map InsertImage vs) c) = parks c"
    using images_insert [of vs c] by (simp_all add: new_def)
  have len: "length new = length vs" unfolding new_def length_map length_zip length_upt by simp
  have ids: "\<forall>i \<in> set new. park_id i \<in> park_id ` set vs"
    by (auto simp: new_def park_id_extend dest!: set_zip_leftD)
  show ?thesis unfolding a im pk i p using len ids by auto
qed

lemma stmts_of_world_steps:
  "stmts_of (world_steps e p nps ph v sat)
     = InsertOrReplacePark (world_park_row e p v)
       # map InsertImage (world_image_rows e (pid p) nps ph sat)"
  by (simp add: world_steps_def stmts_of_world_image_steps)

lemma stmts_of_mvp_steps:
  "stmts_of (mvp_steps e p photos nd)
     = InsertOrReplacePark (mvp_park_row e p nd) # map InsertImage (mvp_image_rows e (pid p) photos)"
  by (simp add: mvp_steps_def stmts_of_mvp_image_steps)

lemma committed_rows:
  assumes "sts = InsertOrReplacePark r # map InsertImage vs" "\<forall>iv \<in> set vs. park_id iv = k"
    "row_id r = k"
  shows "(\<exists>q \<in> set (parks (apply_stmts sts db)). row_id q = k)
       \<and> (\<forall>i \<in> set (images (apply_stmts sts db)). i \<in> set (images db) \<or> park_id i = k)"
  using apply_upsert_then_images [of r vs db] assms by auto

lemma set_parks_to_process: "set (parks_to_process ps limit) \<subseteq> set ps"
  by (auto simp: parks_to_process_def slice_to_def split: option.splits dest: in_set_takeD)

lemma for_each_invariant_in:
  assumes "\<And>s x. x \<in> set xs \<Longrightarrow> I s \<Longrightarrow> I (snd (body s x))" "I s"
  shows "I (snd (for_each body xs s))"
  using assms
proof (induction xs arbitrary: s)
  case Nil
  then show ?case by simp
next
  case (Cons x xs)
  obtain r s1 where b: "body s x = (r, s1)" by (cases "body s x")
  have "I s1" using Cons.prems(1) [of x s] Cons.prems(2) b by simp
  then have "I (snd (for_each body xs s1))" using Cons.IH [of s1] Cons.prems(1) by simp
  then show ?case using b \<open>I s1\<close> by (cases r) auto
qed

lemma run_transaction_refs:
  assumes "stmts_of steps = InsertOrReplacePark r # map InsertImage vs"
    "\<forall>iv \<in> set vs. park_id iv = k"
  shows "\<forall>i \<in> set (images (snd (snd (run_transaction e k steps (s, db))))).
           i \<in> set (images db) \<or> park_id i = k"
proof (cases "fst (run_transaction e k steps (s, db)) = None")
  case True
  then have "snd (snd (run_transaction e k steps (s, db))) = apply_stmts (stmts_of steps) db"
    using run_transaction_db [of e k steps s db] by simp
  then show ?thesis using apply_upsert_then_images [of r vs db] assms by auto
next
  case False
  then have "snd (snd (run_transaction e k steps (s, db))) = db"
    using run_transaction_db [of e k steps s db] by (simp only: if_False)
  then show ?thesis by simp
qed

lemma world_process_refs:
  "\<forall>i \<in> set (images (snd (snd (world_process_park d e sd p)))).
     i \<in> set (images (snd sd)) \<or> park_id i = pid p"
proof -
  obtain n u v sat s' where f: "world_fetch_park d e (fst sd) p = ((n, u, v, sat), s')"
    by (metis prod.collapse)
  have "\<forall>iv \<in> set (world_image_rows e (pid p) n u sat). park_id iv = pid p"
    by (simp add: park_id_world_image_rows)
  from run_transaction_refs [OF stmts_of_world_steps [of e p n u v sat] this, where s = s' and db = "snd sd"] f
  show ?thesis by (simp add: world_process_park_def save_park_data_def)
qed

lemma mvp_process_refs:
  "\<forall>i \<in> set (images (snd (snd (mvp_process_park d e sd p)))).
     i \<in> set (images (snd sd)) \<or> park_id i = pid p"
proof -
  obtain ph nd sat s' where f: "mvp_fetch_park d e (fst sd) p = ((ph, nd, sat), s')"
    by (metis prod.collapse)
  have "\<forall>iv \<in> set (mvp_image_rows e (pid p) ph). park_id iv = pid p"
    by (simp add: park_id_mvp_image_rows)
  from run_transaction_refs [OF stmts_of_mvp_steps [of e p ph nd] this, where s = s' and db = "snd sd"] f
  show ?thesis by (simp add: mvp_process_park_def mvp_save_park_data_def)
qed

lemma world_run_refs:
  assumes "\<forall>i \<in> set (images (snd sd)). park_id i \<in> K"
  shows "\<forall>i \<in> set (images (snd (snd (fetch_all_parks_data d e ps limit sd)))).
           park_id i \<in> K \<union> pid ` set ps"
  unfolding fetch_all_parks_data_def
proof (rule for_each_invariant_in
         [where I = "\<lambda>sd :: fetcher \<times> catalog. \<forall>i \<in> set (images (snd sd)). park_id i \<in> K \<union> pid ` set ps"])
  fix s :: "fetcher \<times> catalog" and p
  assume p: "p \<in> set (parks_to_process ps limit)"
    and a: "\<forall>i \<in> set (images (snd s)). park_id i \<in> K \<union> pid ` set ps"
  have "p \<in> set ps" using p set_parks_to_process [of ps limit] by auto
  then show "\<forall>i \<in> set (images (snd (snd (world_process_park d e s p)))). park_id i \<in> K \<union> pid ` set ps"
    using world_process_refs [of d e s p] a by auto
next
  show "\<forall>i \<in> set (images (snd sd)). park_id i \<in> K \<union> pid ` set ps" using assms by auto
qed

lemma mvp_run_refs:
  assumes "\<forall>i \<in> set (images (snd sd)). park_id i \<in> K"
  shows "\<forall>i \<in> set (images (snd (snd (fetch_all_assets d e ps limit sd)))).
           park_id i \<in> K \<union> pid ` set ps"
  unfolding fetch_all_assets_def
proof (rule for_each_invariant_in
         [where I = "\<lambda>sd :: fetcher \<times> catalog. \<forall>i \<in> set (images (snd sd)). park_id i \<in> K \<union> pid ` set ps"])
  fix s :: "fetcher \<times> catalog" and p
  assume p: "p \<in> set (parks_to_process ps limit)"
    and a: "\<forall>i \<in> set (images (snd s)). park_id i \<in> K \<union> pid ` set ps"
  have "p \<in> set ps" using p set_parks_to_process [of ps limit] by auto
  then show "\<forall>i \<in> set (images (snd (snd (mvp_process_park d e s p)))). park_id i \<in> K \<union> pid ` set ps"
    using mvp_process_refs [of d e s p] a by auto
next
  show "\<forall>i \<in> set (images (snd sd)). park_id i \<in> K \<union> pid ` set ps" using assms by auto
qed

text \<open>
  Claim C6. Saving the data of a park is one transaction whose first statement is the
  park's own \<^verbatim>\<open>INSERT OR REPLACE\<close>; every image statement after it carries the key of
  that park. Whatever happens, the catalog file afterwards holds either all of these
  statements' effects or none: when SQLite raises at any statement the function leaves
  before \<^verbatim>\<open>commit\<close> and the file is as it was. After a commit the file holds a park
  row with the key, and every image row that was not there before refers to it. This
  holds for \<^verbatim>\<open>save_park_data\<close> of both scripts. So after a run, complete or not, an
  image row refers to a park of the run or to a key that image rows referred to before.
\<close>

theorem catalog_writes_atomic_entity_first:
  "stmts_of (world_steps e p nps ph v sat)
     = InsertOrReplacePark (world_park_row e p v)
       # map InsertImage (world_image_rows e (pid p) nps ph sat)
   \<and> row_id (world_park_row e p v) = pid p
   \<and> (\<forall>iv \<in> set (world_image_rows e (pid p) nps ph sat). park_id iv = pid p)
   \<and> snd (snd (save_park_data e (s, db) p nps ph v sat))
       = (if fst (save_park_data e (s, db) p nps ph v sat) = None
          then apply_stmts (stmts_of (world_steps e p nps ph v sat)) db else db)
   \<and> (fst (save_park_data e (s, db) p nps ph v sat) = None \<longrightarrow>
        (\<exists>q \<in> set (parks (snd (snd (save_park_data e (s, db) p nps ph v sat)))). row_id q = pid p)
        \<and> (\<forall>i \<in> set (images (snd (snd (save_park_data e (s, db) p nps ph v sat)))).
              i \<in> set (images db) \<or> park_id i = pid p))
   \<and> stmts_of (mvp_steps e p ph nd)
       = InsertOrReplacePark (mvp_park_row e p nd) # map InsertImage (mvp_image_rows e (pid p) ph)
   \<and> row_id (mvp_park_row e p nd) = pid p
   \<and> (\<forall>iv \<in> set (mvp_image_rows e (pid p) ph). park_id iv = pid p)
   \<and> snd (snd (mvp_save_park_data e (s, db) p ph nd satellite))
       = (if fst (mvp_save_park_data e (s, db) p ph nd satellite) = None
          then apply_stmts (stmts_of (mvp_steps e p ph nd)) db else db)
   \<and> (fst (mvp_save_park_data e (s, db) p ph nd satellite) = None \<longrightarrow>
        (\<exists>q \<in> set (parks (snd (snd (mvp_save_park_data e (s, db) p ph nd satellite)))). row_id q = pid p)
        \<and> (\<forall>i \<in> set (images (snd (snd (mvp_save_park_data e (s, db) p ph nd satellite)))).
              i \<in> set (images db) \<or> park_id i = pid p))
   \<and> ((\<forall>i \<in> set (images (snd sd)). park_id i \<in> K) \<longrightarrow>
        (\<forall>i \<in> set (images (snd (snd (fetch_all_parks_data d e ps limit sd)))).
            park_id i \<in> K \<union> pid ` set ps)
        \<and> (\<forall>i \<in> set (images (snd (snd (fetch_all_assets d e ps limit sd)))).
            park_id i \<in> K \<union> pid ` set ps))"
proof -
  have w1: "row_id (world_park_row e p v) = pid p" by (simp add: world_park_row_def)
  have w2: "\<forall>iv \<in> set (world_image_rows e (pid p) nps ph sat). park_id iv = pid p"
    by (simp add: park_id_world_image_rows)
  have w3: "snd (snd (save_park_data e (s, db) p nps ph v sat))
       = (if fst (save_park_data e (s, db) p nps ph v sat) = None
          then apply_stmts (stmts_of (world_steps e p nps ph v sat)) db else db)"
    unfolding save_park_data_def by (rule run_transaction_db)
  have w4: "(\<exists>q \<in> set (parks (snd (snd (save_park_data e (s, db) p nps ph v sat)))). row_id q = pid p)
        \<and> (\<forall>i \<in> set (images (snd (snd (save_park_data e (s, db) p nps ph v sat)))).
              i \<in> set (images db) \<or> park_id i = pid p)"
    if "fst (save_park_data e (s, db) p nps ph v sat) = None"
    using committed_rows [OF stmts_of_world_steps w2 w1, of db] w3 that by simp
  have m1: "row_id (mvp_park_row e p nd) = pid p" by (simp add: mvp_park_row_def)
  have m2: "\<forall>iv \<in> set (mvp_image_rows e (pid p) ph). park_id iv = pid p"
    by (simp add: park_id_mvp_image_rows)
  have m3: "snd (snd (mvp_save_park_data e (s, db) p ph nd satellite))
       = (if fst (mvp_save_park_data e (s, db) p ph nd satellite) = None
          then apply_stmts (stmts_of (mvp_steps e p ph nd)) db else db)"
    unfolding mvp_save_park_data_def by (rule run_transaction_db)
  have m4: "(\<exists>q \<in> set (parks (snd (snd (mvp_save_park_data e (s, db) p ph nd satellite)))). row_id q = pid p)
        \<and> (\<forall>i \<in> set (images (snd (snd (mvp_save_park_data e (s, db) p ph nd satellite)))).
              i \<in> set (images db) \<or> park_id i = pid p)"
    if "fst (mvp_save_park_data e (s, db) p ph nd satellite) = None"
    using committed_rows [OF stmts_of_mvp_steps m2 m1, of db] m3 that by simp
  have r: "(\<forall>i \<in> set (images (snd sd)). park_id i \<in> K) \<longrightarrow>
        (\<forall>i \<in> set (images (snd (snd (fetch_all_parks_data d e ps limit sd)))).
            park_id i \<in> K \<union> pid ` set ps)
        \<and> (\<forall>i \<in> set (images (snd (snd (fetch_all_assets d e ps limit sd)))).
            park_id i \<in> K \<union> pid ` set ps)"
    using world_run_refs [of sd K d e ps limit] mvp_run_refs [of sd K d e ps limit] by blast
  show ?thesis
    using stmts_of_world_steps [of e p nps ph v sat] stmts_of_mvp_steps [of e p ph nd]
      w1 w2 w3 w4 m1 m2 m3 m4 r by blast
qed


lemmas save_eval_defs =
  save_park_data_def mvp_save_park_data_def run_transaction_def world_steps_def
  world_image_steps_def mvp_steps_def mvp_image_steps_def connect_def execute_def commit_def
  world_park_row_def mvp_park_row_def unsplash_image_values_def world_photo_of_def
  sample_park_def sample_raw_photo_def empty_catalog_def fetcher0_def
  download_and_process_image_def image_values.defs image_row.defs

lemma save_world_eval:
  "fst (save_park_data env_down (fetcher0, empty_catalog) sample_park []
          [world_photo_of sample_raw_photo] True None) = None
   \<and> map park_id (images (snd (snd (save_park_data env_down (fetcher0, empty_catalog) sample_park []
          [world_photo_of sample_raw_photo] True None)))) = [1]
   \<and> map row_id (parks (snd (snd (save_park_data env_down (fetcher0, empty_catalog) sample_park []
          [world_photo_of sample_raw_photo] True None)))) = [1]"
  by (simp add: save_eval_defs env_down_def)

lemma save_world_fail_eval:
  "fst (save_park_data env_db_fails (fetcher0, empty_catalog) sample_park []
          [world_photo_of sample_raw_photo] True None) = Some PersistenceError"
  by (simp add: save_eval_defs env_down_def env_db_fails_def)

lemma images_empty_catalog: "images empty_catalog = []"
  by (simp add: empty_catalog_def)

lemma world_run_park_ids_eval:
  "map park_id (images (snd (snd (fetch_all_parks_data 2 env_one_photo [sample_park] None
                                    (fetcher0, empty_catalog))))) = [1]"
  by (simp add: save_eval_defs fetch_all_parks_data_def parks_to_process_def
        world_process_park_def world_fetch_park_def validate_location_with_nasa_def
        fetch_nps_images_def fetch_unsplash_photos_def emit_def sleep_def raise_for_status_def
        slice_to_def Let_def env_one_photo_def env_down_def)

theorem catalog_writes_atomic_entity_first_witness:
  "fst (save_park_data env_down (fetcher0, empty_catalog) sample_park []
          [world_photo_of sample_raw_photo] True None) = None
   \<and> map park_id (images (snd (snd (save_park_data env_down (fetcher0, empty_catalog) sample_park []
          [world_photo_of sample_raw_photo] True None)))) = [1]
   \<and> map row_id (parks (snd (snd (save_park_data env_down (fetcher0, empty_catalog) sample_park []
          [world_photo_of sample_raw_photo] True None)))) = [1]
   \<and> fst (save_park_data env_db_fails (fetcher0, empty_catalog) sample_park []
          [world_photo_of sample_raw_photo] True None) = Some PersistenceError
   \<and> snd (snd (save_park_data env_db_fails (fetcher0, empty_catalog) sample_park []
          [world_photo_of sample_raw_photo] True None)) = empty_catalog
   \<and> images (snd (fetcher0, empty_catalog)) = []
   \<and> map park_id (images (snd (snd (fetch_all_parks_data 2 env_one_photo [sample_park] None
                                       (fetcher0, empty_catalog))))) = [1]"
  using catalog_writes_atomic_entity_first
          [of env_down sample_park "[]" "[world_photo_of sample_raw_photo]" True None
              fetcher0 empty_catalog None None "(fetcher0, empty_catalog)" "{}" 2 "[sample_park]"
              None]
        catalog_writes_atomic_entity_first
          [of env_db_fails sample_park "[]" "[world_photo_of sample_raw_photo]" True None
              fetcher0 empty_catalog None None "(fetcher0, empty_catalog)" "{}" 2 "[sample_park]"
              None]
        catalog_writes_atomic_entity_first
          [of env_one_photo sample_park "[]" "[world_photo_of sample_raw_photo]" True None
              fetcher0 empty_catalog None None "(fetcher0, empty_catalog)" "{}" 2 "[sample_park]"
              None]
        save_world_eval save_world_fail_eval world_run_park_ids_eval images_empty_catalog
  by simp

subsection \<open>Rows added by a run\<close>






lemma fst_mvp_fetch_unsplash_indep:
  "fst (mvp_fetch_unsplash_photos e s n k) = fst (mvp_fetch_unsplash_photos e fetcher0 n k)"
  by (simp add: mvp_fetch_unsplash_photos_def Let_def split: option.splits)

lemma fst_fetch_nps_data_indep:
  "fst (fetch_nps_data e s c) = fst (fetch_nps_data e fetcher0 c)"
  by (simp add: fetch_nps_data_def Let_def split: option.splits list.splits)

lemma fst_fetch_nasa_satellite_indep:
  "fst (fetch_nasa_satellite_image e s lat lon) = fst (fetch_nasa_satellite_image e fetcher0 lat lon)"
  by (simp add: fetch_nasa_satellite_image_def Let_def split: option.splits)

lemma fst_mvp_fetch_park: "fst (mvp_fetch_park d e s p) = mvp_fetched e p"
proof -
  have "fst (mvp_fetch_park d e s p)
      = (fst (mvp_fetch_unsplash_photos e fetcher0 (name p) 5),
         fst (fetch_nps_data e fetcher0 (code p)),
         fst (fetch_nasa_satellite_image e fetcher0 (latitude p) (longitude p)))" for d s
    unfolding mvp_fetch_park_def split_beta
    using fst_mvp_fetch_unsplash_indep [of e s "name p" 5]
    by (simp add: fst_fetch_nps_data_indep [of e "sleep d (snd (mvp_fetch_unsplash_photos e s (name p) 5))"]
          fst_fetch_nasa_satellite_indep [of e "sleep d (snd (fetch_nps_data e
                (sleep d (snd (mvp_fetch_unsplash_photos e s (name p) 5))) (code p)))"])
  then show ?thesis by (simp add: mvp_fetched_def)
qed

lemma run_transaction_count:
  assumes "db_error e k = None" "stmts_of steps = InsertOrReplacePark r # map InsertImage vs"
  shows "fst (run_transaction e k steps (s, db)) = None
       \<and> length (images (snd (snd (run_transaction e k steps (s, db))))) = length (images db) + length vs"
proof -
  have n: "fst (run_transaction e k steps (s, db)) = None"
    using run_transaction_error [of e k steps s db] assms(1) by simp
  then have "snd (snd (run_transaction e k steps (s, db))) = apply_stmts (stmts_of steps) db"
    using run_transaction_db [of e k steps s db] by simp
  then show ?thesis using n apply_upsert_then_images [of r vs db] assms(2) by simp
qed


lemma length_mvp_image_rows:
  "length (mvp_image_rows e k photos)
     = length (filter (\<lambda>ph. download_and_process_image e (photo_url ph) k ''photo'' \<noteq> None) photos)"
  by (induction photos) (auto simp: mvp_image_rows_def split: option.splits)

lemma mvp_process_count:
  assumes "db_error e (pid p) = None"
  shows "fst (mvp_process_park d e sd p) = None
       \<and> length (images (snd (snd (mvp_process_park d e sd p))))
           = length (images (snd sd)) + mvp_new_rows e p"
proof -
  obtain ph nd sat s' where f: "mvp_fetch_park d e (fst sd) p = ((ph, nd, sat), s')"
    by (metis prod.collapse)
  then have wf: "mvp_fetched e p = (ph, nd, sat)"
    using fst_mvp_fetch_park [of d e "fst sd" p] by simp
  have rows: "length (mvp_image_rows e (pid p) ph) = mvp_new_rows e p"
    using wf by (simp add: mvp_new_rows_def mvp_fetched_def length_mvp_image_rows)
  show ?thesis
    using run_transaction_count [OF assms stmts_of_mvp_steps [of e p ph nd], where s = s' and db = "snd sd"] f rows
    by (simp add: mvp_process_park_def mvp_save_park_data_def)
qed

lemma for_each_count:
  fixes m :: "'s \<Rightarrow> nat"
  assumes "\<And>s x. x \<in> set xs \<Longrightarrow> fst (body s x) = None \<and> m (snd (body s x)) = m s + f x"
  shows "fst (for_each body xs s) = None \<and> m (snd (for_each body xs s)) = m s + sum_list (map f xs)"
  using assms
proof (induction xs arbitrary: s)
  case Nil
  then show ?case by simp
next
  case (Cons x xs)
  obtain s1 where b: "body s x = (None, s1)" using Cons.prems [of x s] by (cases "body s x") auto
  have m1: "m s1 = m s + f x" using Cons.prems [of x s] b by simp
  have "fst (for_each body xs s1) = None \<and> m (snd (for_each body xs s1)) = m s1 + sum_list (map f xs)"
    using Cons.IH [of s1] Cons.prems by simp
  then show ?case using b m1 by simp
qed




lemmas run_eval_defs =
  fetch_all_parks_data_def fetch_all_assets_def parks_to_process_def world_process_park_def
  mvp_process_park_def world_fetch_park_def mvp_fetch_park_def validate_location_with_nasa_def
  fetch_nps_images_def fetch_unsplash_photos_def mvp_fetch_unsplash_photos_def fetch_nps_data_def
  fetch_nasa_satellite_image_def emit_def sleep_def raise_for_status_def slice_to_def
  mvp_photo_of_def Let_def



lemma world_run_once_eval:
  "snd (snd (fetch_all_parks_data 2 env_one_photo [sample_park] None (fetcher0, empty_catalog)))
     = \<lparr>parks = [world_park_row env_one_photo sample_park False],
        images = [image_values.extend
                   (unsplash_image_values env_one_photo 1 (world_photo_of sample_raw_photo))
                   (image_row.fields 1)],
        images_seq = 1\<rparr>"
  by (simp add: run_eval_defs save_eval_defs env_one_photo_def env_down_def)



subsection \<open>Errors during a run\<close>

lemma run_steps_events:
  "(\<forall>ev. Effect ev \<in> set steps \<longrightarrow> (\<exists>u. ev = Download u)) \<Longrightarrow>
     \<exists>us. snd (snd (run_steps fault n steps conn evs)) = evs @ map Download us"
proof (induction fault n steps conn evs rule: run_steps.induct)
  case (1 fault n conn evs)
  show ?case by (intro exI [of _ "[]"]) simp
next
  case (2 fault n ev rest conn evs)
  then obtain u where u: "ev = Download u" by auto
  from 2 obtain us where "snd (snd (run_steps fault n rest conn (evs @ [ev]))) = (evs @ [ev]) @ map Download us"
    by auto
  then show ?case using u by (intro exI [of _ "u # us"]) simp
next
  case (3 fault n st rest conn evs)
  show ?case
  proof (cases "fault = Some n")
    case True
    then show ?thesis by (intro exI [of _ "[]"]) simp
  next
    case False
    with 3 show ?thesis by auto
  qed
qed

lemma run_transaction_events:
  assumes "\<forall>ev. Effect ev \<in> set steps \<longrightarrow> (\<exists>u. ev = Download u)"
  shows "\<exists>us. events (fst (snd (run_transaction e k steps (s, db)))) = events s @ map Download us"
proof -
  obtain raised conn evs where r: "run_steps (db_error e k) 0 steps (connect db) (events s) = (raised, conn, evs)"
    by (cases "run_steps (db_error e k) 0 steps (connect db) (events s)")
  from run_steps_events [OF assms, of "db_error e k" 0 "connect db" "events s"] r
  obtain us where "evs = events s @ map Download us" by auto
  then show ?thesis using r by (auto simp: run_transaction_def)
qed

lemma mvp_steps_effects: "Effect ev \<in> set (mvp_steps e p ph nd) \<Longrightarrow> \<exists>u. ev = Download u"
  by (auto simp: mvp_steps_def mvp_image_steps_def split: option.splits)

lemma world_steps_effects: "Effect ev \<in> set (world_steps e p nps ph v sat) \<Longrightarrow> \<exists>u. ev = Download u"
  by (auto simp: world_steps_def world_image_steps_def split: option.splits if_splits)

lemma events_mvp_fetch_park:
  "events (snd (mvp_fetch_park d e s p))
     = events s @ [ApiCall Unsplash, Sleep d, ApiCall NPS, Sleep d, ApiCall NASA, Sleep d]"
  by (simp add: mvp_fetch_park_def mvp_fetch_unsplash_photos_def fetch_nps_data_def
        fetch_nasa_satellite_image_def emit_def sleep_def Let_def split_beta
        split: option.splits list.splits)

lemma events_mvp_process_park:
  "\<exists>us. events (fst (snd (mvp_process_park d e sd p)))
     = events (fst sd) @ [ApiCall Unsplash, Sleep d, ApiCall NPS, Sleep d, ApiCall NASA, Sleep d]
       @ map Download us"
proof -
  obtain ph nd sat s' where f: "mvp_fetch_park d e (fst sd) p = ((ph, nd, sat), s')"
    by (metis prod.collapse)
  have ev: "events s' = events (fst sd) @ [ApiCall Unsplash, Sleep d, ApiCall NPS, Sleep d, ApiCall NASA, Sleep d]"
    using events_mvp_fetch_park [of d e "fst sd" p] f by simp
  from run_transaction_events [of "mvp_steps e p ph nd" e "pid p" s' "snd sd"] mvp_steps_effects
  obtain us where "events (fst (snd (run_transaction e (pid p) (mvp_steps e p ph nd) (s', snd sd))))
      = events s' @ map Download us" by blast
  then show ?thesis using f ev
    by (intro exI [of _ us]) (simp add: mvp_process_park_def mvp_save_park_data_def)
qed

lemma calls_to_append: "calls_to pr (xs @ ys) = calls_to pr xs + calls_to pr ys"
  by (simp add: calls_to_def)

lemma calls_to_downloads: "calls_to pr (map Download us) = 0"
  by (induction us) (auto simp: calls_to_def)

lemma mvp_process_calls:
  "calls_to Unsplash (events (fst (snd (mvp_process_park d e sd p))))
     = calls_to Unsplash (events (fst sd)) + 1"
proof -
  from events_mvp_process_park [of d e sd p] obtain us where
    "events (fst (snd (mvp_process_park d e sd p)))
     = events (fst sd) @ [ApiCall Unsplash, Sleep d, ApiCall NPS, Sleep d, ApiCall NASA, Sleep d]
       @ map Download us" by blast
  then show ?thesis by (simp add: calls_to_append calls_to_downloads) (simp add: calls_to_def)
qed

lemma mvp_run_calls:
  assumes "\<forall>p \<in> set ps. db_error e (pid p) = None"
  shows "fst (fetch_all_assets d e ps limit sd) = None
       \<and> calls_to Unsplash (events (fst (snd (fetch_all_assets d e ps limit sd))))
           = calls_to Unsplash (events (fst sd)) + length (parks_to_process ps limit)"
proof -
  have "fst (for_each (mvp_process_park d e) (parks_to_process ps limit) sd) = None
      \<and> calls_to Unsplash (events (fst (snd (for_each (mvp_process_park d e) (parks_to_process ps limit) sd))))
         = calls_to Unsplash (events (fst sd)) + sum_list (map (\<lambda>p. 1) (parks_to_process ps limit))"
    using for_each_count [of "parks_to_process ps limit" "mvp_process_park d e"
          "\<lambda>sd. calls_to Unsplash (events (fst sd))" "\<lambda>p. 1" sd]
        mvp_process_count [of e _ d] mvp_process_calls [of d e] assms
        set_parks_to_process [of ps limit]
    by (simp add: subset_iff)
  then show ?thesis by (simp add: fetch_all_assets_def sum_list_triv)
qed

lemma mvp_process_park_error:
  "(fst (mvp_process_park d e sd p) = None)
     = (\<not> (\<exists>j. db_error e (pid p) = Some j
               \<and> j \<le> length (mvp_image_rows e (pid p) (fst (mvp_fetched e p)))))"
proof -
  obtain ph nd sat s' where f: "mvp_fetch_park d e (fst sd) p = ((ph, nd, sat), s')"
    by (metis prod.collapse)
  then have wf: "mvp_fetched e p = (ph, nd, sat)"
    using fst_mvp_fetch_park [of d e "fst sd" p] by simp
  show ?thesis
    using run_transaction_error [of e "pid p" "mvp_steps e p ph nd" s' "snd sd"] f wf
    by (simp add: mvp_process_park_def mvp_save_park_data_def stmts_of_mvp_steps less_Suc_eq_le)
qed

text \<open>
  Claim C8, as amended. In \<^verbatim>\<open>fetch_all_assets\<close> an error in a provider request or in
  the processing of an image is caught where it arises and gives the empty result of
  that step (\<^verbatim>\<open>[]\<close> or \<^verbatim>\<open>None\<close>), and when SQLite raises for none of the parks the
  loop processes every park of the list and ends normally. An exception that SQLite
  raises while the data of a park are saved is not caught: it ends the run, and the
  parks after that one are not processed.
\<close>

theorem fetch_errors_do_not_abort_store_errors_do:
  "((\<forall>p \<in> set ps. db_error e (pid p) = None) \<longrightarrow>
       fst (fetch_all_assets d e ps limit sd) = None
       \<and> calls_to Unsplash (events (fst (snd (fetch_all_assets d e ps limit sd))))
           = calls_to Unsplash (events (fst sd)) + length (parks_to_process ps limit))
   \<and> ((unsplash_search e (park_name @ '' National Park landscape'') k = None
        \<or> (\<exists>r. unsplash_search e (park_name @ '' National Park landscape'') k = Some r
                \<and> (raise_for_status r \<or> json r = None)))
       \<longrightarrow> fst (mvp_fetch_unsplash_photos e s park_name k) = [])
   \<and> ((nps_parks e c = None
        \<or> (\<exists>r. nps_parks e c = Some r \<and> (raise_for_status r \<or> json r = None)))
       \<longrightarrow> fst (fetch_nps_data e s c) = None)
   \<and> ((nasa_imagery e lat lon = None
        \<or> (\<exists>r. nasa_imagery e lat lon = Some r \<and> raise_for_status r))
       \<longrightarrow> fst (fetch_nasa_satellite_image e s lat lon) = None)
   \<and> ((http_get e u = None
        \<or> (\<exists>r. http_get e u = Some r \<and> (raise_for_status r \<or> pil_process e (content r) = None)))
       \<longrightarrow> download_and_process_image e u key kind = None)
   \<and> (fst (mvp_process_park d e sd p) = None)
       = (\<not> (\<exists>j. db_error e (pid p) = Some j
                 \<and> j \<le> length (mvp_image_rows e (pid p) (fst (mvp_fetched e p)))))
   \<and> (fst (mvp_process_park d e sd p) \<noteq> None \<longrightarrow>
        fetch_all_assets d e (p # ps) None sd = mvp_process_park d e sd p)"
proof -
  have a: "fst (mvp_process_park d e sd p) \<noteq> None \<longrightarrow>
        fetch_all_assets d e (p # ps) None sd = mvp_process_park d e sd p"
    by (cases "mvp_process_park d e sd p")
       (auto simp: fetch_all_assets_def parks_to_process_def)
  show ?thesis
    using mvp_run_calls [of ps e d limit sd] mvp_process_park_error [of d e sd p] a
    by (auto simp: mvp_fetch_unsplash_photos_def fetch_nps_data_def fetch_nasa_satellite_image_def
          download_and_process_image_def Let_def)
qed

lemma mvp_run_down_eval:
  "fst (fetch_all_assets 72 env_down [sample_park, other_park] None (fetcher0, empty_catalog)) = None
   \<and> map row_id (parks (snd (snd (fetch_all_assets 72 env_down [sample_park, other_park] None
                                    (fetcher0, empty_catalog))))) = [1, 2]"
  by (simp add: run_eval_defs save_eval_defs env_down_def other_park_def)

theorem fetch_errors_do_not_abort_store_errors_do_witness:
  "db_error env_down (pid sample_park) = None \<and> db_error env_down (pid other_park) = None
   \<and> unsplash_search env_down (''Sample Park'' @ '' National Park landscape'') 5 = None
   \<and> fst (mvp_fetch_unsplash_photos env_down fetcher0 ''Sample Park'' 5) = []
   \<and> fst (fetch_all_assets 72 env_down [sample_park, other_park] None (fetcher0, empty_catalog)) = None
   \<and> calls_to Unsplash (events (fst (snd (fetch_all_assets 72 env_down [sample_park, other_park] None
                                             (fetcher0, empty_catalog))))) = 2
   \<and> map row_id (parks (snd (snd (fetch_all_assets 72 env_down [sample_park, other_park] None
                                    (fetcher0, empty_catalog))))) = [1, 2]"
  using fetch_errors_do_not_abort_store_errors_do
          [of "[sample_park, other_park]" env_down 72 None "(fetcher0, empty_catalog)"
              "''Sample Park''" 5 fetcher0]
        mvp_run_down_eval
  by (simp add: env_down_def parks_to_process_def fetcher0_def calls_to_def sample_park_def
        other_park_def)

text \<open>
  Claim C8 as stated fails: no configuration is wrong, SQLite raises while the first
  of two parks is saved, and the run ends there; the second park is never fetched.
\<close>

theorem store_error_aborts_run_counterexample:
  "fst (fetch_all_assets 72 env_db_fails [sample_park, other_park] None (fetcher0, empty_catalog))
     = Some PersistenceError
   \<and> parks (snd (snd (fetch_all_assets 72 env_db_fails [sample_park, other_park] None
                         (fetcher0, empty_catalog)))) = []
   \<and> events (fst (snd (fetch_all_assets 72 env_db_fails [sample_park, other_park] None
                         (fetcher0, empty_catalog))))
       = [ApiCall Unsplash, Sleep 72, ApiCall NPS, Sleep 72, ApiCall NASA, Sleep 72]"
  by (simp add: run_eval_defs save_eval_defs env_db_fails_def env_down_def other_park_def)

subsection \<open>Spacing of the provider requests\<close>

text \<open>
  Claim C9 on the code. Both scripts sleep \<^verbatim>\<open>RATE_LIMIT_DELAY\<close> seconds after each
  provider step, but \<^verbatim>\<open>validate_location_with_nasa\<close> makes two requests to NASA in one
  step: when the assets request reports an asset, the imagery request follows at once.
  With the delay of 2 seconds of fetch\_world\_parks\_data.py and one park, the run makes
  the two requests with nothing between them.
\<close>

theorem nasa_requests_back_to_back:
  "events (fst (snd (fetch_all_parks_data RATE_LIMIT_DELAY_world env_nasa_found [sample_park] None
                       (fetcher0, empty_catalog))))
     = [ApiCall NASA, ApiCall NASA, Sleep 2, ApiCall Unsplash, Sleep 2]
   \<and> back_to_back NASA
         (events (fst (snd (fetch_all_parks_data RATE_LIMIT_DELAY_world env_nasa_found [sample_park]
                              None (fetcher0, empty_catalog)))))
   \<and> RATE_LIMIT_DELAY_world = 2"
  by (simp add: run_eval_defs save_eval_defs env_nasa_found_def env_down_def
        RATE_LIMIT_DELAY_world_def)

subsection \<open>The alpha channel of the clouds\<close>

lemma rounding_exact: "rounding exact"
  by (simp add: rounding_def exact_def)

lemma rounding_mono: "rounding fl \<Longrightarrow> x \<le> y \<Longrightarrow> fl x \<le> fl y"
  by (simp add: rounding_def)

lemma rounding_int: "rounding fl \<Longrightarrow> \<bar>k\<bar> \<le> 2 ^ 53 \<Longrightarrow> fl (real_of_int k) = real_of_int k"
  by (simp add: rounding_def)

lemma rounding_consts:
  assumes "rounding fl"
  shows "fl 0 = 0" and "fl 1 = 1" and "fl 255 = 255"
  using rounding_int [OF assms, of 0] rounding_int [OF assms, of 1] rounding_int [OF assms, of 255]
  by simp_all

lemma cloud_strength_range:
  assumes "rounding fl" and "cloud_strength fl b cy cx = Some alpha"
  shows "0 \<le> alpha \<and> alpha \<le> 255"
proof -
  note c = rounding_consts [OF assms(1)]
  define dx where "dx = fl (real_of_int (cx - cloud_x b) / real_of_int (size_x b))"
  define dy where "dy = fl (real_of_int (cy - cloud_y b) / real_of_int (size_y b))"
  define dist where "dist = fl (sqrt (fl (fl (dx\<^sup>2) + fl (dy\<^sup>2))))"
  have d1: "dist < 1" and a: "alpha = py_int (fl (fl (1 - dist) * 255))"
    using assms(2) unfolding cloud_strength_def dx_def [symmetric] dy_def [symmetric] Let_def
      dist_def [symmetric]
    by (auto split: if_splits)
  have "0 \<le> fl (dx\<^sup>2)" "0 \<le> fl (dy\<^sup>2)"
    using rounding_mono [OF assms(1), of 0 "dx\<^sup>2"] rounding_mono [OF assms(1), of 0 "dy\<^sup>2"] c(1)
    by simp_all
  then have "0 \<le> fl (fl (dx\<^sup>2) + fl (dy\<^sup>2))"
    using rounding_mono [OF assms(1), of 0 "fl (dx\<^sup>2) + fl (dy\<^sup>2)"] c(1) by simp
  then have d0: "0 \<le> dist"
    unfolding dist_def
    using rounding_mono [OF assms(1), of 0 "sqrt (fl (fl (dx\<^sup>2) + fl (dy\<^sup>2)))"] c(1) by simp
  have f0: "0 \<le> fl (1 - dist)"
    using rounding_mono [OF assms(1), of 0 "1 - dist"] d1 c(1) by simp
  have f1: "fl (1 - dist) \<le> 1"
    using rounding_mono [OF assms(1), of "1 - dist" 1] d0 c(2) by simp
  have lo: "0 \<le> fl (fl (1 - dist) * 255)"
    using rounding_mono [OF assms(1), of 0 "fl (1 - dist) * 255"] f0 c(1) by simp
  have hi: "fl (fl (1 - dist) * 255) \<le> 255"
    using rounding_mono [OF assms(1), of "fl (1 - dist) * 255" 255] f1 c(3) by simp
  have "\<lfloor>fl (fl (1 - dist) * 255)\<rfloor> \<le> 255" using hi by (simp only: floor_le_numeral)
  moreover have "0 \<le> \<lfloor>fl (fl (1 - dist) * 255)\<rfloor>" using lo by (simp only: zero_le_floor)
  ultimately show ?thesis unfolding a using lo by (simp add: py_int_def)
qed

lemma cloud_strength_centre:
  assumes "rounding fl"
  shows "cloud_strength fl b (cloud_y b) (cloud_x b) = Some 255"
  using rounding_consts [OF assms] by (simp add: cloud_strength_def py_int_def)

lemma cloud_alpha_defined:
  assumes "0 \<le> alpha" and "alpha \<le> 255"
  shows "\<exists>v. cloud_alpha np old alpha = Some v"
proof -
  have "0 \<le> alpha div 2" "alpha div 2 \<le> 255" using assms by simp_all
  then show ?thesis by (cases np) (simp_all add: cloud_alpha_def scalar_add_def)
qed

lemma fold_option_append:
  "fold_option f (xs @ ys) s
   = (case fold_option f xs s of None \<Rightarrow> None | Some s1 \<Rightarrow> fold_option f ys s1)"
  by (induction xs arbitrary: s) (simp_all split: option.splits)

lemma cloud_visit_elsewhere:
  assumes "rounding fl" and "0 \<le> snd q" and "snd q < w" and "q \<noteq> p"
  shows "\<exists>r'. cloud_visit np fl w b q r = Some r' \<and> r' p = r p"
proof (cases "cloud_strength fl b (fst q) (snd q)")
  case None
  then show ?thesis by (simp add: cloud_visit_def)
next
  case (Some alpha)
  from cloud_strength_range [OF assms(1) Some] cloud_alpha_defined
  obtain v where v: "cloud_alpha np (r (fst q, snd q mod w) ! 3) alpha = Some v" by blast
  have "snd q mod w = snd q" using assms(2,3) by simp
  then have "(fst q, snd q mod w) \<noteq> p" using assms(4) by (cases q) auto
  then show ?thesis using Some v by (simp add: cloud_visit_def)
qed

lemma fold_cloud_visit_elsewhere:
  assumes "rounding fl"
  shows "(\<And>q. q \<in> set ps \<Longrightarrow> 0 \<le> snd q \<and> snd q < w) \<Longrightarrow> p \<notin> set ps \<Longrightarrow>
         \<exists>r'. fold_option (cloud_visit np fl w b) ps r = Some r' \<and> r' p = r p"
proof (induction ps arbitrary: r)
  case Nil
  show ?case by simp
next
  case (Cons q ps)
  have q: "0 \<le> snd q" "snd q < w" "q \<noteq> p" using Cons.prems by auto
  from cloud_visit_elsewhere [OF assms q, of np b r]
  obtain r1 where r1: "cloud_visit np fl w b q r = Some r1" "r1 p = r p" by blast
  from Cons.IH [of r1] Cons.prems
  obtain r' where "fold_option (cloud_visit np fl w b) ps r1 = Some r'" "r' p = r1 p" by auto
  with r1 show ?case by simp
qed

lemma cloud_visit_pixel:
  assumes "rounding fl" and "0 \<le> px" and "px < w"
  shows "\<exists>r'. cloud_visit np fl w b (py, px) r = Some r'
          \<and> (case cloud_strength fl b py px of
                None \<Rightarrow> r' (py, px) = r (py, px)
              | Some alpha \<Rightarrow>
                  \<exists>v. cloud_alpha np (r (py, px) ! 3) alpha = Some v
                      \<and> r' (py, px) = [255, 255, 255, v])"
proof (cases "cloud_strength fl b py px")
  case None
  then show ?thesis by (simp add: cloud_visit_def)
next
  case (Some alpha)
  from cloud_strength_range [OF assms(1) Some] cloud_alpha_defined
  obtain v where v: "cloud_alpha np (r (py, px) ! 3) alpha = Some v" by blast
  have "px mod w = px" using assms(2,3) by simp
  then show ?thesis using Some v by (simp add: cloud_visit_def)
qed

lemma add_cloud_pixel:
  assumes fl: "rounding fl"
    and y: "max 0 (cloud_y b - size_y b) \<le> py" "py < min h (cloud_y b + size_y b)"
    and x: "max 0 (cloud_x b - size_x b) \<le> px" "px < min w (cloud_x b + size_x b)"
  shows "\<exists>r'. add_cloud np fl w h b r = Some r'
          \<and> (case cloud_strength fl b py px of
                None \<Rightarrow> r' (py, px) = r (py, px)
              | Some alpha \<Rightarrow>
                  \<exists>v. cloud_alpha np (r (py, px) ! 3) alpha = Some v
                      \<and> r' (py, px) = [255, 255, 255, v])"
proof -
  define x0 where "x0 = max 0 (cloud_x b - size_x b)"
  define x1 where "x1 = min w (cloud_x b + size_x b) - 1"
  define y0 where "y0 = max 0 (cloud_y b - size_y b)"
  define y1 where "y1 = min h (cloud_y b + size_y b) - 1"
  define p where "p = (py, px)"
  have xb: "x0 \<le> px" "px \<le> x1" "0 \<le> x0" "x1 < w"
    using x by (simp_all add: x0_def x1_def)
  have yb: "y0 \<le> py" "py \<le> y1"
    using y by (simp_all add: y0_def y1_def)
  have px: "0 \<le> px" "px < w" using xb by simp_all
  define before where
    "before = concat (map (\<lambda>cy. map (\<lambda>cx. (cy, cx)) [x0..x1]) [y0..py - 1])
              @ map (\<lambda>cx. (py, cx)) [x0..px - 1]"
  define after where
    "after = map (\<lambda>cx. (py, cx)) [px + 1..x1]
             @ concat (map (\<lambda>cy. map (\<lambda>cx. (cy, cx)) [x0..x1]) [py + 1..y1])"
  have cols: "[x0..x1] = [x0..px - 1] @ px # [px + 1..x1]"
    using upto_split3 [OF xb(1,2)] .
  have rows: "[y0..y1] = [y0..py - 1] @ py # [py + 1..y1]"
    using upto_split3 [OF yb(1,2)] .
  have split: "concat (map (\<lambda>cy. map (\<lambda>cx. (cy, cx)) [x0..x1]) [y0..y1]) = before @ p # after"
  proof -
    have "concat (map (\<lambda>cy. map (\<lambda>cx. (cy, cx)) [x0..x1]) [y0..y1])
          = concat (map (\<lambda>cy. map (\<lambda>cx. (cy, cx)) [x0..x1]) [y0..py - 1])
            @ map (\<lambda>cx. (py, cx)) [x0..x1]
            @ concat (map (\<lambda>cy. map (\<lambda>cx. (cy, cx)) [x0..x1]) [py + 1..y1])"
      by (subst rows) simp
    also have "map (\<lambda>cx. (py, cx)) [x0..x1]
               = map (\<lambda>cx. (py, cx)) [x0..px - 1] @ p # map (\<lambda>cx. (py, cx)) [px + 1..x1]"
      by (subst cols) (simp add: p_def)
    finally show ?thesis by (simp add: before_def after_def)
  qed
  have inb: "\<And>q. q \<in> set before \<Longrightarrow> 0 \<le> snd q \<and> snd q < w"
    using xb by (auto simp: before_def)
  have ina: "\<And>q. q \<in> set after \<Longrightarrow> 0 \<le> snd q \<and> snd q < w"
    using xb by (auto simp: after_def)
  have nb: "p \<notin> set before" by (auto simp: before_def p_def)
  have na: "p \<notin> set after" by (auto simp: after_def p_def)
  from fold_cloud_visit_elsewhere [OF fl inb nb, of np b r]
  obtain r1 where r1: "fold_option (cloud_visit np fl w b) before r = Some r1" "r1 p = r p"
    by blast
  from cloud_visit_pixel [where r = r1 and np = np and b = b and py = py, OF fl px]
  obtain r2 where r2: "cloud_visit np fl w b p r1 = Some r2"
    "case cloud_strength fl b py px of
       None \<Rightarrow> r2 (py, px) = r1 (py, px)
     | Some alpha \<Rightarrow> \<exists>v. cloud_alpha np (r1 (py, px) ! 3) alpha = Some v
                          \<and> r2 (py, px) = [255, 255, 255, v]"
    by (auto simp: p_def)
  from fold_cloud_visit_elsewhere [OF fl ina na, of np b r2]
  obtain r3 where r3: "fold_option (cloud_visit np fl w b) after r2 = Some r3" "r3 p = r2 p"
    by blast
  have "add_cloud np fl w h b r = Some r3"
    unfolding add_cloud_def x0_def [symmetric] x1_def [symmetric] y0_def [symmetric]
      y1_def [symmetric] split
    using r1(1) r2(1) r3(1) by (simp add: fold_option_append)
  moreover have "case cloud_strength fl b py px of
       None \<Rightarrow> r3 (py, px) = r (py, px)
     | Some alpha \<Rightarrow> \<exists>v. cloud_alpha np (r (py, px) ! 3) alpha = Some v
                          \<and> r3 (py, px) = [255, 255, 255, v]"
    using r2(2) r3(2) r1(2) by (simp add: p_def split: option.splits)
  ultimately show ?thesis by blast
qed

lemma add_cloud_centre:
  assumes fl: "rounding fl"
    and y: "0 \<le> cloud_y b" "cloud_y b < h" and x: "0 \<le> cloud_x b" "cloud_x b < w"
    and s: "0 < size_y b" "0 < size_x b"
    and v: "cloud_alpha np (r (cloud_y b, cloud_x b) ! 3) 255 = Some v"
  shows "\<exists>r'. add_cloud np fl w h b r = Some r' \<and> r' (cloud_y b, cloud_x b) = [255, 255, 255, v]"
proof -
  have "max 0 (cloud_y b - size_y b) \<le> cloud_y b" "cloud_y b < min h (cloud_y b + size_y b)"
       "max 0 (cloud_x b - size_x b) \<le> cloud_x b" "cloud_x b < min w (cloud_x b + size_x b)"
    using y x s by simp_all
  from add_cloud_pixel [OF fl this, of np r]
  show ?thesis
    using cloud_strength_centre [OF fl, of b] v by auto
qed

lemma three_clouds_centre:
  assumes fl: "rounding fl"
    and b: "\<forall>b \<in> set [b1, b2, b3]. cloud_y b = y \<and> cloud_x b = x \<and> 0 < size_y b \<and> 0 < size_x b"
    and y: "0 \<le> y" "y < h" and x: "0 \<le> x" "x < w"
    and v1: "cloud_alpha np 0 255 = Some v1"
    and v2: "cloud_alpha np v1 255 = Some v2"
    and v3: "cloud_alpha np v2 255 = Some v3"
  shows "\<exists>r. create_clouds np fl w h [b1, b2, b3] = Some r \<and> r (y, x) = [255, 255, 255, v3]"
proof -
  have c1: "cloud_y b1 = y" "cloud_x b1 = x" "0 < size_y b1" "0 < size_x b1"
    and c2: "cloud_y b2 = y" "cloud_x b2 = x" "0 < size_y b2" "0 < size_x b2"
    and c3: "cloud_y b3 = y" "cloud_x b3 = x" "0 < size_y b3" "0 < size_x b3"
    using b by simp_all
  let ?r0 = "(\<lambda>pos. [0, 0, 0, 0]) :: raster"
  have "cloud_alpha np (?r0 (cloud_y b1, cloud_x b1) ! 3) 255 = Some v1" using v1 by simp
  from add_cloud_centre [where b = b1 and r = ?r0 and np = np and v = v1 and h = h and w = w,
         OF fl _ _ _ _ c1(3,4) this] y x c1(1,2)
  obtain r1 where r1: "add_cloud np fl w h b1 ?r0 = Some r1" "r1 (y, x) = [255, 255, 255, v1]"
    by auto
  have "cloud_alpha np (r1 (cloud_y b2, cloud_x b2) ! 3) 255 = Some v2"
    using v2 r1(2) c2(1,2) by simp
  from add_cloud_centre [where b = b2 and r = r1 and np = np and v = v2 and h = h and w = w,
         OF fl _ _ _ _ c2(3,4) this] y x c2(1,2)
  obtain r2 where r2: "add_cloud np fl w h b2 r1 = Some r2" "r2 (y, x) = [255, 255, 255, v2]"
    by auto
  have "cloud_alpha np (r2 (cloud_y b3, cloud_x b3) ! 3) 255 = Some v3"
    using v3 r2(2) c3(1,2) by simp
  from add_cloud_centre [where b = b3 and r = r2 and np = np and v = v3 and h = h and w = w,
         OF fl _ _ _ _ c3(3,4) this] y x c3(1,2)
  obtain r3 where r3: "add_cloud np fl w h b3 r2 = Some r3" "r3 (y, x) = [255, 255, 255, v3]"
    by auto
  show ?thesis
    using r1 r2 r3 by (simp add: create_clouds_def)
qed

lemma cloud_alpha_steps:
  "cloud_alpha np 0 255 = Some 127" "cloud_alpha np 127 255 = Some 254"
  "cloud_alpha From2 254 255 = Some 125" "cloud_alpha Before2 254 255 = Some 255"
  by (cases np; simp add: cloud_alpha_def scalar_add_def)+

text \<open>
  Claim C5 on the code of create\_earth\_textures.py. The loop stores
  \<^verbatim>\<open>min(255, clouds[cy, cx % width, 3] + alpha // 2)\<close>. With \<^verbatim>\<open>numpy\<close> from version 2 on
  the sum is taken in \<^verbatim>\<open>uint8\<close> before the minimum: three clouds with the same centre
  inside the layer add 127 to the alpha channel there three times, and the layer that
  \<^verbatim>\<open>create_clouds\<close> returns has 125 at the centre, not 255. With a \<^verbatim>\<open>numpy\<close> before
  version 2 the same clouds give 255.
\<close>

theorem third_cloud_wraps_alpha:
  assumes "rounding fl"
    and "\<forall>b \<in> set [b1, b2, b3]. cloud_y b = y \<and> cloud_x b = x \<and> 0 < size_y b \<and> 0 < size_x b"
    and "0 \<le> y" and "y < h" and "0 \<le> x" and "x < w"
  shows "(\<exists>r. create_clouds From2 fl w h [b1, b2, b3] = Some r \<and> r (y, x) = [255, 255, 255, 125])
       \<and> (\<exists>r. create_clouds Before2 fl w h [b1, b2, b3] = Some r \<and> r (y, x) = [255, 255, 255, 255])"
  using three_clouds_centre [OF assms cloud_alpha_steps(1,2,3)]
        three_clouds_centre [OF assms cloud_alpha_steps(1,2,4)]
  by simp

theorem third_cloud_wraps_alpha_witness:
  "rounding exact
   \<and> cloud_y sample_cloud = 512 \<and> cloud_x sample_cloud = 1024
   \<and> 0 < size_y sample_cloud \<and> 0 < size_x sample_cloud
   \<and> (\<exists>r. create_clouds From2 exact 2048 1024 [sample_cloud, sample_cloud, sample_cloud] = Some r
          \<and> r (512, 1024) = [255, 255, 255, 125])
   \<and> (\<exists>r. create_clouds Before2 exact 2048 1024 [sample_cloud, sample_cloud, sample_cloud] = Some r
          \<and> r (512, 1024) = [255, 255, 255, 255])"
  using third_cloud_wraps_alpha
          [of exact sample_cloud sample_cloud sample_cloud 512 1024 1024 2048]
        rounding_exact
  by (simp add: sample_cloud_def)

subsection \<open>The noise of the day layer\<close>

lemma day_base_cases: "day_base pos = [139, 90, 43] \<or> day_base pos = [70, 130, 180]"
  by (simp add: day_base_def continents_def fill_def)

lemma day_base_channel:
  assumes "c < 3"
  shows "uint (day_base pos ! c) \<le> 254"
proof -
  have "c = 0 \<or> c = 1 \<or> c = 2" using assms by auto
  then show ?thesis using day_base_cases [of pos] by auto
qed

lemma uint8_floor:
  assumes "0 \<le> z" and "z \<le> 255"
  shows "uint (astype_uint8 z) = \<lfloor>z\<rfloor>"
proof -
  have f0: "0 \<le> \<lfloor>z\<rfloor>" using assms(1) by simp
  have "\<lfloor>z\<rfloor> \<le> 255" using assms(2) by (simp only: floor_le_numeral)
  then have "\<lfloor>z\<rfloor> < 2 ^ LENGTH(8)" by simp
  then have "uint (word_of_int \<lfloor>z\<rfloor> :: 8 word) = \<lfloor>z\<rfloor>"
    using f0 by (simp add: uint_word_of_int take_bit_int_eq_self)
  then show ?thesis
    using assms(1) by (simp add: astype_uint8_def py_int_def)
qed

lemma np_clip_range: "0 \<le> np_clip x 0 255 \<and> np_clip x 0 255 \<le> 255"
  by (simp add: np_clip_def)

lemma noisy_channel_low:
  assumes fl: "rounding fl" and "n \<le> 0" and "0 \<le> k" and "k \<le> 255"
  shows "uint (astype_uint8 (np_clip (fl (real_of_int k + n)) 0 255)) \<le> k"
proof -
  have k: "\<bar>k\<bar> \<le> 2 ^ 53" using assms(3,4) by simp
  have "fl (real_of_int k + n) \<le> real_of_int k"
    using rounding_mono [OF fl, of "real_of_int k + n" "real_of_int k"]
      rounding_int [OF fl k] assms(2) by simp
  moreover have "(0 :: real) \<le> real_of_int k" using assms(3) by simp
  ultimately have le: "np_clip (fl (real_of_int k + n)) 0 255 \<le> real_of_int k"
    unfolding np_clip_def by linarith
  have "\<lfloor>np_clip (fl (real_of_int k + n)) 0 255\<rfloor> \<le> k"
    using le by (simp only: floor_le_iff)
  then show ?thesis
    using uint8_floor np_clip_range by simp
qed

lemma noisy_channel_high:
  assumes fl: "rounding fl" and "1 \<le> n" and "0 \<le> k" and "k \<le> 254"
  shows "k < uint (astype_uint8 (np_clip (fl (real_of_int k + n)) 0 255))"
proof -
  have k: "\<bar>k + 1\<bar> \<le> 2 ^ 53" using assms(3,4) by simp
  have "real_of_int (k + 1) \<le> fl (real_of_int k + n)"
    using rounding_mono [OF fl, of "real_of_int (k + 1)" "real_of_int k + n"]
      rounding_int [OF fl k] assms(2) by simp
  moreover have "real_of_int (k + 1) \<le> 255" "(0 :: real) \<le> real_of_int (k + 1)"
    using assms(3,4) by simp_all
  ultimately have ge: "real_of_int (k + 1) \<le> np_clip (fl (real_of_int k + n)) 0 255"
    unfolding np_clip_def by linarith
  have "k + 1 \<le> \<lfloor>np_clip (fl (real_of_int k + n)) 0 255\<rfloor>"
    using ge by (simp only: le_floor_iff)
  then show ?thesis
    using uint8_floor np_clip_range by simp
qed

lemma add_noise_channel:
  assumes "c < 3"
  shows "add_noise fl tex noise pos ! c
         = astype_uint8 (np_clip (fl (real_of_int (uint (tex pos ! c)) + noise (fst pos, snd pos, c)))
                           0 255)"
proof -
  have "c = 0 \<or> c = 1 \<or> c = 2" using assms by auto
  then show ?thesis by (auto simp: add_noise_def)
qed

text \<open>
  Claim C2 on the code of fetch\_earth\_textures\_v2.py. The day layer that the generated
  script saves depends on the state in which the generator of \<^verbatim>\<open>numpy\<close> starts: if at
  some pixel and channel the noise of one run is at most 0 and that of another run at
  least 1, the two runs store different pixels there. Nothing fixes that state:
  \<^verbatim>\<open>np.random.seed(42)\<close> is called after the noise has been drawn.
\<close>

theorem day_noise_follows_generator_state:
  assumes "rounding fl"
    and "normal 0 10 (1024, 2048, 3) g = (noise, g1)"
    and "normal 0 10 (1024, 2048, 3) g' = (noise', g2)"
    and "0 \<le> y \<and> y < 1024 \<and> 0 \<le> x \<and> x < 2048" and "c < 3"
    and "noise (y, x, c) \<le> 0" and "1 \<le> noise' (y, x, c)"
  shows "fst (procedural_day fl normal g) (y, x) \<noteq> fst (procedural_day fl normal g') (y, x)"
proof -
  define k where "k = uint (day_base (y, x) ! c)"
  have k: "0 \<le> k" "k \<le> 254" using day_base_channel [OF assms(5), of "(y, x)"] by (simp_all add: k_def)
  have a: "uint (fst (procedural_day fl normal g) (y, x) ! c) \<le> k"
    unfolding procedural_day_def assms(2) k_def
    using noisy_channel_low [OF assms(1,6), of "uint (day_base (y, x) ! c)"] k
    by (simp add: add_noise_channel [OF assms(5)] k_def)
  have b: "k < uint (fst (procedural_day fl normal g') (y, x) ! c)"
    unfolding procedural_day_def assms(3) k_def
    using noisy_channel_high [OF assms(1,7), of "uint (day_base (y, x) ! c)"] k
    by (simp add: add_noise_channel [OF assms(5)] k_def)
  show ?thesis using a b by auto
qed

lemma day_base_origin: "day_base (0, 0) = [70, 130, 180]"
  by (simp add: day_base_def continents_def fill_def)

lemma stored_exact:
  "astype_uint8 (np_clip (exact (real_of_int (uint (70 :: 8 word)) + 0)) 0 255) = 70"
  "astype_uint8 (np_clip (exact (real_of_int (uint (70 :: 8 word)) + 10)) 0 255) = 80"
  by (simp_all add: exact_def np_clip_def astype_uint8_def py_int_def)

lemma procedural_day_eval:
  "fst (procedural_day exact counting_normal 0) (0, 0) = [70, 130, 180]
   \<and> fst (procedural_day exact counting_normal 1) (0, 0) = [80, 140, 190]"
proof -
  have a: "fst (procedural_day exact counting_normal g) (0, 0)
           = map (\<lambda>c. astype_uint8 (np_clip (exact (real_of_int (uint ([70, 130, 180 :: 8 word] ! c))
                                                + 10 * real g)) 0 255)) [0, 1, 2]" for g
    by (simp add: procedural_day_def counting_normal_def add_noise_def day_base_origin)
  show ?thesis
    unfolding a by (simp add: exact_def np_clip_def astype_uint8_def py_int_def)
qed

theorem day_noise_follows_generator_state_witness:
  "rounding exact
   \<and> counting_normal 0 10 (1024, 2048, 3) 0 = (\<lambda>index. 0, 1)
   \<and> counting_normal 0 10 (1024, 2048, 3) 1 = (\<lambda>index. 10, 2)
   \<and> fst (procedural_day exact counting_normal 0) (0, 0)
       \<noteq> fst (procedural_day exact counting_normal 1) (0, 0)"
  using day_noise_follows_generator_state
          [of exact counting_normal 0 "\<lambda>index. 0" 1 1 "\<lambda>index. 10" 2 0 0 0]
        rounding_exact
  by (simp add: counting_normal_def)

subsection \<open>The sizes of the resized copies and of the preview\<close>

lemma round_aspect_bounds:
  assumes "0 < v"
  shows "1 \<le> round_aspect v key" and "round_aspect v key \<le> \<lceil>v\<rceil>"
    and "\<bar>real_of_int (round_aspect v key) - v\<bar> < 1"
proof -
  define c where "c = (if key \<lceil>v\<rceil> < key \<lfloor>v\<rfloor> then \<lceil>v\<rceil> else \<lfloor>v\<rfloor>)"
  have r: "round_aspect v key = max c 1" by (simp add: round_aspect_def c_def)
  have c1: "1 \<le> \<lceil>v\<rceil>" using assms by (simp add: le_ceiling_iff)
  have f0: "0 \<le> \<lfloor>v\<rfloor>" using assms by simp
  have fl: "real_of_int \<lfloor>v\<rfloor> \<le> v" "v < real_of_int \<lfloor>v\<rfloor> + 1" by linarith+
  have ce: "v \<le> real_of_int \<lceil>v\<rceil>" "real_of_int \<lceil>v\<rceil> < v + 1" by linarith+
  have fc: "\<lfloor>v\<rfloor> \<le> \<lceil>v\<rceil>" by (rule floor_le_ceiling)
  have cc: "c = \<lfloor>v\<rfloor> \<or> c = \<lceil>v\<rceil>" by (simp add: c_def)
  show "1 \<le> round_aspect v key" unfolding r by simp
  show "round_aspect v key \<le> \<lceil>v\<rceil>" unfolding r using cc c1 fc by auto
  show "\<bar>real_of_int (round_aspect v key) - v\<bar> < 1"
  proof (cases "1 \<le> c")
    case True
    then have m: "max c 1 = c" by simp
    from cc show ?thesis
    proof
      assume "c = \<lfloor>v\<rfloor>"
      then have "real_of_int c \<le> v" "v < real_of_int c + 1" using fl by simp_all
      then show ?thesis unfolding r m by linarith
    next
      assume "c = \<lceil>v\<rceil>"
      then have "v \<le> real_of_int c" "real_of_int c < v + 1" using ce by simp_all
      then show ?thesis unfolding r m by linarith
    qed
  next
    case False
    then have c0: "c \<le> 0" by simp
    then have cf: "c = \<lfloor>v\<rfloor>" using cc c1 by linarith
    then have "\<lfloor>v\<rfloor> = 0" using c0 f0 by linarith
    then have "v < 1" using fl by simp
    moreover have "max c 1 = 1" using False by simp
    ultimately show ?thesis unfolding r using assms by simp
  qed
qed

lemma thumbnail_size_fits:
  assumes w: "1 \<le> w" and h: "1 \<le> h" and x: "1 \<le> x" and y: "1 \<le> y"
  shows "1 \<le> fst (thumbnail_size (w, h) (x, y))
       \<and> fst (thumbnail_size (w, h) (x, y)) \<le> min x w
       \<and> 1 \<le> snd (thumbnail_size (w, h) (x, y))
       \<and> snd (thumbnail_size (w, h) (x, y)) \<le> min y h
       \<and> keeps_aspect (w, h) (thumbnail_size (w, h) (x, y))"
proof -
  define W H X Y where "W = real_of_int w" and "H = real_of_int h"
    and "X = real_of_int x" and "Y = real_of_int y"
  have pos: "1 \<le> W" "1 \<le> H" "1 \<le> X" "1 \<le> Y"
    using w h x y by (simp_all add: W_def H_def X_def Y_def)
  consider (fits) "w \<le> x \<and> h \<le> y"
    | (wide) "\<not> (w \<le> x \<and> h \<le> y)" "W / H \<le> X / Y"
    | (tall) "\<not> (w \<le> x \<and> h \<le> y)" "\<not> W / H \<le> X / Y"
    by blast
  then show ?thesis
  proof cases
    case fits
    then have t: "thumbnail_size (w, h) (x, y) = (w, h)" by (simp add: thumbnail_size_def)
    have "H * (W / H) = W" using pos by simp
    then show ?thesis
      unfolding t using fits w h
      by (simp add: keeps_aspect_def W_def H_def)
  next
    case wide
    define v where "v = Y * (W / H)"
    define r where "r = round_aspect v (\<lambda>n. \<bar>W / H - real_of_int n / Y\<bar>)"
    have t: "thumbnail_size (w, h) (x, y) = (r, y)"
      unfolding thumbnail_size_def prod.case Let_def r_def v_def W_def H_def X_def Y_def
      using wide [unfolded W_def H_def X_def Y_def] by (simp only: if_False if_True)
    have v0: "0 < v" using pos by (simp add: v_def)
    have cross: "W * Y \<le> X * H" using wide(2) pos by (simp add: field_simps)
    have yh: "y < h"
    proof (rule ccontr)
      assume "\<not> y < h"
      then have hy: "H \<le> Y" by (simp add: H_def Y_def)
      then have "X * H \<le> X * Y" using pos by simp
      with cross have "W * Y \<le> X * Y" by linarith
      then have "W \<le> X" using pos by simp
      then have "w \<le> x" by (simp add: W_def X_def)
      moreover have "h \<le> y" using hy by (simp add: H_def Y_def)
      ultimately show False using wide(1) by simp
    qed
    have vx: "v \<le> X" unfolding v_def using cross pos by (simp add: field_simps)
    have "Y * W \<le> H * W" using yh pos by (simp add: H_def Y_def)
    then have vw: "v \<le> W" unfolding v_def using pos by (simp add: field_simps)
    have "\<lceil>v\<rceil> \<le> x" using vx by (simp add: ceiling_le_iff X_def)
    moreover have "\<lceil>v\<rceil> \<le> w" using vw by (simp add: ceiling_le_iff W_def)
    ultimately have rb: "r \<le> min x w"
      using round_aspect_bounds(2) [OF v0, of "\<lambda>n. \<bar>W / H - real_of_int n / Y\<bar>"]
      by (simp add: r_def)
    have r1: "1 \<le> r" unfolding r_def by (rule round_aspect_bounds(1) [OF v0])
    have ra: "\<bar>real_of_int r - Y * (W / H)\<bar> < 1"
      using round_aspect_bounds(3) [OF v0, of "\<lambda>n. \<bar>W / H - real_of_int n / Y\<bar>"]
      by (simp add: r_def v_def)
    show ?thesis
      unfolding t using rb r1 ra y yh
      by (simp add: keeps_aspect_def W_def H_def Y_def)
  next
    case tall
    define v where "v = X / (W / H)"
    define r where
      "r = round_aspect v (\<lambda>n. if n = 0 then 0 else \<bar>W / H - X / real_of_int n\<bar>)"
    have t: "thumbnail_size (w, h) (x, y) = (x, r)"
      unfolding thumbnail_size_def prod.case Let_def r_def v_def W_def H_def X_def Y_def
      using tall [unfolded W_def H_def X_def Y_def] by (simp only: if_False if_True)
    have v0: "0 < v" using pos by (simp add: v_def)
    have ve: "v = X * (H / W)" by (simp add: v_def)
    have cross: "X * H < W * Y" using tall(2) pos by (simp add: field_simps not_le)
    have xw: "x < w"
    proof (rule ccontr)
      assume "\<not> x < w"
      then have wx: "W \<le> X" by (simp add: W_def X_def)
      then have "W * Y \<le> X * Y" using pos by simp
      with cross have "X * H < X * Y" by linarith
      then have "H < Y" using pos by simp
      then have "h \<le> y" by (simp add: H_def Y_def)
      moreover have "w \<le> x" using wx by (simp add: W_def X_def)
      ultimately show False using tall(1) by simp
    qed
    have vy: "v \<le> Y" unfolding ve using cross pos by (simp add: field_simps)
    have "X * H \<le> W * H" using xw pos by (simp add: W_def X_def)
    then have vh: "v \<le> H" unfolding ve using pos by (simp add: field_simps)
    have "\<lceil>v\<rceil> \<le> y" using vy by (simp add: ceiling_le_iff Y_def)
    moreover have "\<lceil>v\<rceil> \<le> h" using vh by (simp add: ceiling_le_iff H_def)
    ultimately have rb: "r \<le> min y h"
      using round_aspect_bounds(2)
              [OF v0, of "\<lambda>n. if n = 0 then 0 else \<bar>W / H - X / real_of_int n\<bar>"]
      by (simp add: r_def)
    have r1: "1 \<le> r" unfolding r_def by (rule round_aspect_bounds(1) [OF v0])
    have ra: "\<bar>real_of_int r - X * (H / W)\<bar> < 1"
      using round_aspect_bounds(3)
              [OF v0, of "\<lambda>n. if n = 0 then 0 else \<bar>W / H - X / real_of_int n\<bar>"]
      by (simp add: r_def ve)
    show ?thesis
      unfolding t using rb r1 ra x xw
      by (simp add: keeps_aspect_def W_def H_def X_def)
  qed
qed

lemma thumbnail_eval:
  "thumbnail_size (4000, 3000) (1920, 1080) = (1440, 1080)
   \<and> thumbnail_size (4000, 3000) (800, 600) = (800, 600)
   \<and> thumbnail_size (4000, 3000) (400, 300) = (400, 300)
   \<and> thumbnail_size (4000, 3000) (20, 20) = (20, 15)
   \<and> thumbnail_size (300, 200) (400, 300) = (300, 200)
   \<and> thumbnail_size (10000, 1) (400, 300) = (400, 1)"
  by (simp add: thumbnail_size_def round_aspect_def)

text \<open>
  Claim C4. For a decoded image of \<open>w\<close> by \<open>h\<close> pixels, each of the three copies has
  the name of a preset and a size of at least one pixel that fits the bounding box of
  that preset, exceeds neither the width nor the height of the source, and keeps the
  aspect ratio within a pixel; the preview has at most 20 pixels in its larger
  dimension, is no larger than the source either, and is encoded with quality 20,
  against 85 for the copies. What \<^verbatim>\<open>download_and_process_image\<close> returns carries the
  preview as the text \<^verbatim>\<open>data:image/jpeg;base64,\<close> followed by its base64 encoding,
  together with the width and the height of the decoded image.
\<close>

theorem derivatives_fit_presets:
  "(1 \<le> w \<and> 1 \<le> h \<longrightarrow>
      (\<forall>entry \<in> set (resized_copies (w, h)).
         \<exists>box. (fst entry, box) \<in> set sizes
           \<and> 1 \<le> fst (fst (snd entry)) \<and> fst (fst (snd entry)) \<le> min (fst box) w
           \<and> 1 \<le> snd (fst (snd entry)) \<and> snd (fst (snd entry)) \<le> min (snd box) h
           \<and> keeps_aspect (w, h) (fst (snd entry)) \<and> snd (snd entry) = 85)
      \<and> map fst (resized_copies (w, h)) = [''original'', ''medium'', ''thumb'']
      \<and> 1 \<le> fst (fst (preview (w, h))) \<and> 1 \<le> snd (fst (preview (w, h)))
      \<and> max (fst (fst (preview (w, h)))) (snd (fst (preview (w, h)))) \<le> 20
      \<and> fst (fst (preview (w, h))) \<le> w \<and> snd (fst (preview (w, h))) \<le> h
      \<and> keeps_aspect (w, h) (fst (preview (w, h)))
      \<and> snd (preview (w, h)) = 20)
   \<and> (download_and_process_image e image_url k image_kind = Some pr \<longrightarrow>
        (\<exists>response tiny.
           http_get e image_url = Some response
           \<and> pil_process e (content response) = Some (proc_width pr, proc_height pr, tiny)
           \<and> proc_blur_hash pr = ''data:image/jpeg;base64,'' @ tiny))"
proof (intro conjI impI)
  assume a: "1 \<le> w \<and> 1 \<le> h"
  then have w: "1 \<le> w" and h: "1 \<le> h" by simp_all
  note f1 = thumbnail_size_fits [OF w h, of 1920 1080]
  note f2 = thumbnail_size_fits [OF w h, of 800 600]
  note f3 = thumbnail_size_fits [OF w h, of 400 300]
  note f4 = thumbnail_size_fits [OF w h, of 20 20]
  show "\<forall>entry \<in> set (resized_copies (w, h)).
         \<exists>box. (fst entry, box) \<in> set sizes
           \<and> 1 \<le> fst (fst (snd entry)) \<and> fst (fst (snd entry)) \<le> min (fst box) w
           \<and> 1 \<le> snd (fst (snd entry)) \<and> snd (fst (snd entry)) \<le> min (snd box) h
           \<and> keeps_aspect (w, h) (fst (snd entry)) \<and> snd (snd entry) = 85"
    using f1 f2 f3 by (simp add: resized_copies_def sizes_def)
  show "map fst (resized_copies (w, h)) = [''original'', ''medium'', ''thumb'']"
    by (simp add: resized_copies_def sizes_def)
  show "1 \<le> fst (fst (preview (w, h)))" "1 \<le> snd (fst (preview (w, h)))"
       "max (fst (fst (preview (w, h)))) (snd (fst (preview (w, h)))) \<le> 20"
       "fst (fst (preview (w, h))) \<le> w" "snd (fst (preview (w, h))) \<le> h"
       "keeps_aspect (w, h) (fst (preview (w, h)))" "snd (preview (w, h)) = 20"
    using f4 by (simp_all add: preview_def)
next
  assume "download_and_process_image e image_url k image_kind = Some pr"
  then show "\<exists>response tiny.
           http_get e image_url = Some response
           \<and> pil_process e (content response) = Some (proc_width pr, proc_height pr, tiny)
           \<and> proc_blur_hash pr = ''data:image/jpeg;base64,'' @ tiny"
    by (auto simp: download_and_process_image_def Let_def split: option.splits if_splits)
qed

theorem derivatives_fit_presets_witness:
  "(1 :: int) \<le> 4000 \<and> (1 :: int) \<le> 3000
   \<and> resized_copies (4000, 3000)
       = [(''original'', (1440, 1080), 85), (''medium'', (800, 600), 85),
          (''thumb'', (400, 300), 85)]
   \<and> preview (4000, 3000) = ((20, 15), 20)
   \<and> keeps_aspect (4000, 3000) (1440, 1080)
   \<and> download_and_process_image env_processed ''https://images.example/p1'' 1 ''photo''
       = Some \<lparr>filename = ''park_1_photo_01234567.jpg'',
               proc_blur_hash = ''data:image/jpeg;base64,/9j/4AAQ'',
               proc_width = 4000, proc_height = 3000\<rparr>"
proof -
  note t = derivatives_fit_presets
             [of 4000 3000 env_processed "''https://images.example/p1''" 1 "''photo''"
                 "\<lparr>filename = ''park_1_photo_01234567.jpg'',
                   proc_blur_hash = ''data:image/jpeg;base64,/9j/4AAQ'',
                   proc_width = 4000, proc_height = 3000\<rparr>"]
  have k: "keeps_aspect (4000, 3000) (1440, 1080)"
    using t thumbnail_eval by (simp add: resized_copies_def sizes_def)
  have d: "download_and_process_image env_processed ''https://images.example/p1'' 1 ''photo''
       = Some \<lparr>filename = ''park_1_photo_01234567.jpg'',
               proc_blur_hash = ''data:image/jpeg;base64,/9j/4AAQ'',
               proc_width = 4000, proc_height = 3000\<rparr>"
    by (simp add: download_and_process_image_def env_processed_def env_down_def
          raise_for_status_def Let_def)
  show ?thesis
    using k d thumbnail_eval by (simp add: resized_copies_def sizes_def preview_def)
qed

end
